theory Spec2Isabelle
  imports Main
begin

section \<open>JavaScript values and the built-in conversions the functions rely on\<close>

text \<open>
  The Cloud Functions of \<^verbatim>\<open>functions/lib/index.js\<close> work on values decoded by
  \<^verbatim>\<open>JSON.parse\<close>. Such a value is \<^verbatim>\<open>null\<close>, a boolean, a number, a string, an
  array or a plain object whose own properties are again such values; an object is kept
  as the list of its own properties in insertion order. Numbers are the integers (the
  doubles on which \<^verbatim>\<open>+\<close>, \<^verbatim>\<open>*\<close>, \<^verbatim>\<open><\<close> and \<^verbatim>\<open>Math.floor\<close> are exact); fractions,
  infinities and rounding are outside this model, and \<^verbatim>\<open>NaN\<close> appears only as the
  result \<open>None\<close> of a numeric conversion. The value \<^verbatim>\<open>undefined\<close> is the result
  \<open>None\<close> of a property read.
\<close>

datatype json =
    JNull
  | JBool bool
  | JNum int
  | JStr string
  | JArr "json list"
  | JObj "(string \<times> json) list"

text \<open>
  Exceptions are values. \<open>Error\<close> is what the source raises itself with
  \<^verbatim>\<open>throw new Error(msg)\<close>; the others are raised by the runtime (a property read
  on \<^verbatim>\<open>null\<close>, a failed conversion to a primitive, \<^verbatim>\<open>r.json()\<close> on a body that is
  not JSON, \<^verbatim>\<open>decodeURIComponent\<close> on a malformed escape, a rejected \<^verbatim>\<open>fetch\<close>, a
  rejected storage or Firestore write).
\<close>

datatype error =
    Error string
  | TypeError string
  | SyntaxError string
  | URIError string
  | FetchFailed string
  | PersistenceError string

fun message :: "error \<Rightarrow> string" where
  "message (Error m) = m"
| "message (TypeError m) = m"
| "message (SyntaxError m) = m"
| "message (URIError m) = m"
| "message (FetchFailed m) = m"
| "message (PersistenceError m) = m"

text \<open>Sequencing of computations that may throw: the first exception wins.\<close>

definition ebind :: "error + 'a \<Rightarrow> ('a \<Rightarrow> error + 'b) \<Rightarrow> error + 'b" where
  "ebind m f = (case m of Inl e \<Rightarrow> Inl e | Inr x \<Rightarrow> f x)"

fun emap :: "('a \<Rightarrow> error + 'b) \<Rightarrow> 'a list \<Rightarrow> error + 'b list" where
  "emap f [] = Inr []"
| "emap f (x # xs) = ebind (f x) (\<lambda>y. ebind (emap f xs) (\<lambda>ys. Inr (y # ys)))"

text \<open>
  Library functions of the JavaScript runtime that the source calls and that are not
  part of the repository are parameters of the model:
  \<^item> \<open>NumberToString\<close>: the string of a number (\<^verbatim>\<open>String(7)\<close>, template literals);
  \<^item> \<open>StringToNumber\<close>: the number a string denotes, \<open>None\<close> for \<^verbatim>\<open>NaN\<close>;
  \<^item> \<open>StringLength\<close>: the \<^verbatim>\<open>length\<close> of a string, in UTF-16 code units;
  \<^item> \<open>decodeURIComponent\<close>: \<open>None\<close> when it throws \<^verbatim>\<open>URIError\<close>;
  \<^item> \<open>base64\<close>: \<^verbatim>\<open>Buffer.from(s).toString("base64")\<close>.
\<close>

record builtins =
  NumberToString :: "int \<Rightarrow> string"
  StringToNumber :: "string \<Rightarrow> int option"
  StringLength :: "string \<Rightarrow> nat"
  decodeURIComponent :: "string \<Rightarrow> string option"
  base64 :: "string \<Rightarrow> string"

text \<open>
  \<^verbatim>\<open>v.k\<close> for one of the property names the source reads (\<^verbatim>\<open>id\<close>, \<^verbatim>\<open>name\<close>,
  \<^verbatim>\<open>traits\<close>, \<^verbatim>\<open>items\<close>, \<^verbatim>\<open>meta\<close>, \<^verbatim>\<open>access_token\<close>, ...): none of them is on a
  prototype, so the read gives an own property of an object and \<^verbatim>\<open>undefined\<close> on
  every other value except \<^verbatim>\<open>null\<close>, where it throws.
\<close>

fun prop_of :: "json \<Rightarrow> string \<Rightarrow> json option" where
  "prop_of (JObj kvs) k = map_of kvs k"
| "prop_of _ k = None"

definition get_prop :: "json \<Rightarrow> string \<Rightarrow> error + json option" where
  "get_prop v k =
     (if v = JNull then Inl (TypeError (''Cannot read properties of null (reading '' @ k @ '')''))
      else Inr (prop_of v k))"

text \<open>\<^verbatim>\<open>x ?? d\<close>: the default replaces \<^verbatim>\<open>undefined\<close> and \<^verbatim>\<open>null\<close> only.\<close>

fun nullish :: "json option \<Rightarrow> json \<Rightarrow> json" where
  "nullish None d = d"
| "nullish (Some JNull) d = d"
| "nullish (Some v) d = v"

text \<open>Truthiness, as \<^verbatim>\<open>if (x)\<close>, \<^verbatim>\<open>!x\<close> and \<^verbatim>\<open>Boolean(x)\<close> test it.\<close>

fun truthy :: "json option \<Rightarrow> bool" where
  "truthy None = False"
| "truthy (Some JNull) = False"
| "truthy (Some (JBool b)) = b"
| "truthy (Some (JNum n)) = (n \<noteq> 0)"
| "truthy (Some (JStr s)) = (s \<noteq> [])"
| "truthy (Some (JArr xs)) = True"
| "truthy (Some (JObj kvs)) = True"

text \<open>
  \<^verbatim>\<open>String(v)\<close>. An array is joined with commas, \<^verbatim>\<open>null\<close> elements giving the empty
  string. A plain object gives \<^verbatim>\<open>[object Object]\<close> through \<^verbatim>\<open>Object.prototype.toString\<close>,
  unless it has an own property \<^verbatim>\<open>toString\<close>: a decoded value is never callable, the
  conversion falls back to \<^verbatim>\<open>valueOf\<close>, which is not callable either or returns the
  object itself, and a \<^verbatim>\<open>TypeError\<close> is thrown.
\<close>

fun String_js :: "builtins \<Rightarrow> json \<Rightarrow> error + string"
  and join_js :: "builtins \<Rightarrow> json list \<Rightarrow> error + string"
  and elem_js :: "builtins \<Rightarrow> json \<Rightarrow> error + string" where
  "String_js B JNull = Inr ''null''"
| "String_js B (JBool b) = Inr (if b then ''true'' else ''false'')"
| "String_js B (JNum n) = Inr (NumberToString B n)"
| "String_js B (JStr s) = Inr s"
| "String_js B (JArr xs) = join_js B xs"
| "String_js B (JObj kvs) =
     (if ''toString'' \<in> fst ` set kvs
      then Inl (TypeError ''Cannot convert object to primitive value'')
      else Inr ''[object Object]'')"
| "join_js B [] = Inr []"
| "join_js B [x] = elem_js B x"
| "join_js B (x # y # ys) =
     ebind (elem_js B x) (\<lambda>s. ebind (join_js B (y # ys)) (\<lambda>t. Inr (s @ '','' @ t)))"
| "elem_js B JNull = Inr []"
| "elem_js B (JBool b) = String_js B (JBool b)"
| "elem_js B (JNum n) = String_js B (JNum n)"
| "elem_js B (JStr s) = String_js B (JStr s)"
| "elem_js B (JArr xs) = String_js B (JArr xs)"
| "elem_js B (JObj kvs) = String_js B (JObj kvs)"

section \<open>The normalizer of character records\<close>

text \<open>
  The arrow function mapped over the items of a page in \<^verbatim>\<open>syncGameRef\<close>:
  \<^verbatim>\<open>
  const out = {};
  out.id = String(c.id ?? "");
  out.name = c.name ?? "";
  if (c.imageUrl) out.imageUrl = String(c.imageUrl);
  out.traits = Array.isArray(c.traits) ? c.traits.map((t) => String(t)) : [];
  if (c.faction) out.faction = String(c.faction);
  if (c.role) out.role = String(c.role);
  if (c.stats && typeof c.stats === "object") out.stats = c.stats;
  return out;
  \<close>
  The first property read throws when \<open>c\<close> is \<^verbatim>\<open>null\<close>; each \<^verbatim>\<open>String\<close> may throw.
\<close>

definition opt_field :: "builtins \<Rightarrow> json \<Rightarrow> string \<Rightarrow> error + (string \<times> json) list" where
  "opt_field B c k =
     (if truthy (prop_of c k)
      then ebind (String_js B (nullish (prop_of c k) JNull)) (\<lambda>s. Inr [(k, JStr s)])
      else Inr [])"

definition traits_field :: "builtins \<Rightarrow> json \<Rightarrow> error + json list" where
  "traits_field B c =
     (case prop_of c ''traits'' of
        Some (JArr ts) \<Rightarrow> ebind (emap (String_js B) ts) (\<lambda>ss. Inr (map JStr ss))
      | _ \<Rightarrow> Inr [])"

definition stats_field :: "json \<Rightarrow> (string \<times> json) list" where
  "stats_field c =
     (case prop_of c ''stats'' of
        Some (JArr xs) \<Rightarrow> [(''stats'', JArr xs)]
      | Some (JObj kvs) \<Rightarrow> [(''stats'', JObj kvs)]
      | _ \<Rightarrow> [])"

definition normalize :: "builtins \<Rightarrow> json \<Rightarrow> error + json" where
  "normalize B c =
     ebind (get_prop c ''id'') (\<lambda>i.
     ebind (String_js B (nullish i (JStr ''''))) (\<lambda>ids.
     ebind (opt_field B c ''imageUrl'') (\<lambda>img.
     ebind (traits_field B c) (\<lambda>ts.
     ebind (opt_field B c ''faction'') (\<lambda>fac.
     ebind (opt_field B c ''role'') (\<lambda>rol.
       Inr (JObj ([(''id'', JStr ids), (''name'', nullish (prop_of c ''name'') (JStr ''''))]
                  @ img @ [(''traits'', JArr ts)] @ fac @ rol @ stats_field c))))))))"


text \<open>
  \<^verbatim>\<open>Number(v)\<close>, also the conversion that \<^verbatim>\<open><\<close> applies to its right operand: an
  array or object is first converted to a primitive, which for decoded values is the
  string \<^verbatim>\<open>String(v)\<close> or the same \<^verbatim>\<open>TypeError\<close>. \<open>None\<close> is \<^verbatim>\<open>NaN\<close>.
\<close>

fun Number_js :: "builtins \<Rightarrow> json \<Rightarrow> error + int option" where
  "Number_js B JNull = Inr (Some 0)"
| "Number_js B (JBool b) = Inr (Some (if b then 1 else 0))"
| "Number_js B (JNum n) = Inr (Some n)"
| "Number_js B (JStr s) = Inr (StringToNumber B s)"
| "Number_js B (JArr xs) = ebind (String_js B (JArr xs)) (\<lambda>s. Inr (StringToNumber B s))"
| "Number_js B (JObj kvs) = ebind (String_js B (JObj kvs)) (\<lambda>s. Inr (StringToNumber B s))"

section \<open>Configuration, environment and state\<close>

text \<open>
  An outgoing \<^verbatim>\<open>fetch\<close> (\<open>verb\<close> is its HTTP method) and the response it resolves
  to. \<open>body_json\<close> is what \<^verbatim>\<open>JSON.parse\<close> makes of the body text (\<open>None\<close> when it
  throws); \<^verbatim>\<open>r.ok\<close> is the status being in the range 200 to 299.
\<close>

record request =
  url :: string
  verb :: string
  headers :: "(string \<times> string) list"
  body :: "(string \<times> string) list option"

record http_response =
  status :: int
  statusText :: string
  content_type :: "string option"
  body_text :: string
  body_json :: "json option"

definition ok :: "http_response \<Rightarrow> bool" where
  "ok r = (200 \<le> status r \<and> status r \<le> 299)"

text \<open>
  The environment of a deployment: the five string parameters, the runtime library, and
  the outside world. \<open>network n q\<close> is what the \<open>n\<close>-th \<^verbatim>\<open>fetch\<close> of the process
  (counting from 0) resolves or rejects to when it sends \<open>q\<close> (a rejection also stands
  for a failed read of the body), so an upstream may answer the same request differently
  each time; \<open>clock k\<close> is the value of the \<open>k\<close>-th read of
  the time (\<^verbatim>\<open>Date.now()\<close>, \<^verbatim>\<open>Timestamp.now()\<close>), in milliseconds; \<open>save_error p\<close> and
  \<open>set_error\<close> say whether the write of the object \<open>p\<close>, or of the metadata document,
  is rejected.
\<close>

record env =
  MSF_CLIENT_ID :: string
  MSF_CLIENT_SECRET :: string
  MSF_TOKEN_URL :: string
  MSF_API_BASE :: string
  MSF_X_API_KEY :: string
  lib :: builtins
  network :: "nat \<Rightarrow> request \<Rightarrow> error + http_response"
  clock :: "nat \<Rightarrow> int"
  save_error :: "string \<Rightarrow> error option"
  set_error :: "error option"

text \<open>
  What the process does to the outside world, in order: a \<^verbatim>\<open>fetch\<close>, the write of
  a storage object (path, the value that is serialised with \<^verbatim>\<open>JSON.stringify\<close>,
  content type), the write of a Firestore document (collection, document, fields, the
  \<^verbatim>\<open>merge\<close> option). Calls of the logger change nothing and are left out.
\<close>

datatype event =
    Fetch request
  | Save string json string
  | SetDoc string string json bool

fun is_fetch :: "event \<Rightarrow> bool" where
  "is_fetch (Fetch q) = True"
| "is_fetch _ = False"

definition fetches :: "event list \<Rightarrow> event list" where
  "fetches tr = filter is_fetch tr"

definition writes :: "event list \<Rightarrow> event list" where
  "writes tr = filter (\<lambda>e. \<not> is_fetch e) tr"

text \<open>
  The module variable \<^verbatim>\<open>cachedToken\<close> (\<open>None\<close> is \<^verbatim>\<open>null\<close>; \<open>expiresAt\<close> is a number,
  \<open>None\<close> for \<^verbatim>\<open>NaN\<close>), the events so far and the number of clock reads so far.
\<close>

record cached =
  access_token :: json
  expiresAt :: "int option"

record state =
  cachedToken :: "cached option"
  trace :: "event list"
  ticks :: nat

definition Date_now :: "env \<Rightarrow> state \<Rightarrow> int \<times> state" where
  "Date_now E st = (clock E (ticks st), st\<lparr>ticks := Suc (ticks st)\<rparr>)"

definition do_fetch :: "env \<Rightarrow> request \<Rightarrow> state \<Rightarrow> (error + http_response) \<times> state" where
  "do_fetch E q st =
     (network E (length (fetches (trace st))) q, st\<lparr>trace := trace st @ [Fetch q]\<rparr>)"

section \<open>Helpers: \<^verbatim>\<open>getCookie\<close> and \<^verbatim>\<open>fetchJSON\<close>\<close>

text \<open>
  \<^verbatim>\<open>s.split("=")\<close>, and \<^verbatim>\<open>s.split(/;\s*/)\<close>: a semicolon and the white space after
  it separate two parts. The cookie header holds Latin-1 characters, of which \<^verbatim>\<open>\s\<close>
  matches the codes 9 to 13, 32 and 160. Both give at least one part; \<open>extend_first\<close>
  puts a character in front of the first part.
\<close>

fun extend_first :: "char \<Rightarrow> string list \<Rightarrow> string list" where
  "extend_first x [] = [[x]]"
| "extend_first x (p # ps) = (x # p) # ps"

fun split_on :: "char \<Rightarrow> string \<Rightarrow> string list" where
  "split_on c [] = [[]]"
| "split_on c (x # xs) =
     (if x = c then [] # split_on c xs else extend_first x (split_on c xs))"

definition is_space :: "char \<Rightarrow> bool" where
  "is_space c = (of_char c \<in> {9, 10, 11, 12, 13, 32, 160 :: nat})"

function split_cookies :: "string \<Rightarrow> string list" where
  "split_cookies [] = [[]]"
| "split_cookies (x # xs) =
     (if x = CHR '';'' then [] # split_cookies (dropWhile is_space xs)
      else extend_first x (split_cookies xs))"
  by pat_completeness auto
termination
  by (relation "measure length") (auto simp: length_dropWhile_le less_Suc_eq_le)

text \<open>
  \<^verbatim>\<open>
  function getCookie(req, name) {
      const raw = req.headers?.cookie ?? "";
      for (const part of raw.split(/;\s*/)) {
          const [k, v] = part.split("=");
          if (k === name) return decodeURIComponent(v ?? "");
      }
      return null;
  }
  \<close>
  An incoming request is its \<^verbatim>\<open>path\<close> query parameter (absent, a string, or the array
  or object the query parser makes of repeated and bracketed parameters) and its
  \<^verbatim>\<open>Cookie\<close> header.
\<close>

record incoming =
  query_path :: "json option"
  cookie :: "string option"

fun find_cookie :: "builtins \<Rightarrow> string \<Rightarrow> string list \<Rightarrow> error + string option" where
  "find_cookie B name [] = Inr None"
| "find_cookie B name (part # parts) =
     (let kv = split_on CHR ''='' part in
      if hd kv = name
      then (case decodeURIComponent B (case tl kv of [] \<Rightarrow> [] | v # _ \<Rightarrow> v) of
              None \<Rightarrow> Inl (URIError ''URI malformed'')
            | Some t \<Rightarrow> Inr (Some t))
      else find_cookie B name parts)"

definition getCookie :: "builtins \<Rightarrow> incoming \<Rightarrow> string \<Rightarrow> error + string option" where
  "getCookie B req name =
     find_cookie B name (split_cookies (case cookie req of None \<Rightarrow> [] | Some raw \<Rightarrow> raw))"

text \<open>
  \<^verbatim>\<open>
  async function fetchJSON(path, headers) {
      const url = `${MSF_API_BASE.value().replace(/\/$/, "")}/${path.replace(/^\//, "")}`;
      const r = await fetch(url, { headers });
      if (!r.ok) throw new Error(`${path} -> ${r.status} ${r.statusText}`);
      return r.json();
  }
  \<close>
\<close>

definition strip_trailing_slash :: "string \<Rightarrow> string" where
  "strip_trailing_slash s = (if s \<noteq> [] \<and> last s = CHR ''/'' then butlast s else s)"

fun strip_leading_slash :: "string \<Rightarrow> string" where
  "strip_leading_slash [] = []"
| "strip_leading_slash (x # xs) = (if x = CHR ''/'' then xs else x # xs)"

definition fetchJSON ::
  "env \<Rightarrow> string \<Rightarrow> (string \<times> string) list \<Rightarrow> state \<Rightarrow> (error + json) \<times> state" where
  "fetchJSON E path hs st =
     (case do_fetch E \<lparr>url = strip_trailing_slash (MSF_API_BASE E) @ ''/'' @ strip_leading_slash path,
                        verb = ''GET'', headers = hs, body = None\<rparr> st of
        (Inl e, st1) \<Rightarrow> (Inl e, st1)
      | (Inr r, st1) \<Rightarrow>
          if \<not> ok r
          then (Inl (Error (path @ '' -> '' @ NumberToString (lib E) (status r) @ '' '' @ statusText r)), st1)
          else (case body_json r of
                  None \<Rightarrow> (Inl (SyntaxError ''Unexpected token in JSON''), st1)
                | Some j \<Rightarrow> (Inr j, st1)))"


section \<open>Token acquisition: \<^verbatim>\<open>getAppAccessToken\<close>\<close>

text \<open>
  The request of the client-credentials exchange:
  \<^verbatim>\<open>
  const useBasic = Boolean(MSF_CLIENT_ID.value() && MSF_CLIENT_SECRET.value());
  const form = new URLSearchParams({ grant_type: "client_credentials", scope: "openid" });
  const headers = { "Content-Type": "application/x-www-form-urlencoded" };
  if (useBasic) {
      const basic = Buffer.from(`${MSF_CLIENT_ID.value()}:${MSF_CLIENT_SECRET.value()}`).toString("base64");
      headers["Authorization"] = `Basic ${basic}`;
  } else {
      form.set("client_id", MSF_CLIENT_ID.value());
      form.set("client_secret", MSF_CLIENT_SECRET.value());
  }
  ... fetch(MSF_TOKEN_URL.value(), { method: "POST", headers, body: form })
  \<close>
\<close>

definition useBasic :: "env \<Rightarrow> bool" where
  "useBasic E = (MSF_CLIENT_ID E \<noteq> [] \<and> MSF_CLIENT_SECRET E \<noteq> [])"

definition token_request :: "env \<Rightarrow> request" where
  "token_request E =
     \<lparr>url = MSF_TOKEN_URL E,
      verb = ''POST'',
      headers =
        [(''Content-Type'', ''application/x-www-form-urlencoded'')]
        @ (if useBasic E
           then [(''Authorization'',
                  ''Basic '' @ base64 (lib E) (MSF_CLIENT_ID E @ '':'' @ MSF_CLIENT_SECRET E))]
           else []),
      body = Some
        ([(''grant_type'', ''client_credentials''), (''scope'', ''openid'')]
         @ (if useBasic E then []
            else [(''client_id'', MSF_CLIENT_ID E), (''client_secret'', MSF_CLIENT_SECRET E)]))\<rparr>"

text \<open>The three errors the exchange raises itself.\<close>

definition TokenTransportError :: "builtins \<Rightarrow> int \<Rightarrow> error" where
  "TokenTransportError B c = Error (''Hydra token error '' @ NumberToString B c)"

definition TokenParseError :: error where
  "TokenParseError = Error ''Hydra token parse error''"

definition TokenShapeError :: error where
  "TokenShapeError = Error ''Hydra token missing fields''"

text \<open>
  The part of \<^verbatim>\<open>getAppAccessToken\<close> after the cache test:
  \<^verbatim>\<open>
  const r = await fetch(MSF_TOKEN_URL.value(), { method: "POST", headers, body: form });
  const text = await r.text();
  if (!r.ok) { ...; throw new Error(`Hydra token error ${r.status}`); }
  let json;
  try { json = JSON.parse(text); }
  catch { ...; throw new Error("Hydra token parse error"); }
  if (!json?.access_token || !json?.expires_in) { ...; throw new Error("Hydra token missing fields"); }
  cachedToken = { access_token: json.access_token,
                  expiresAt: Date.now() + Number(json.expires_in) * 1000 };
  return json;
  \<close>
  \<^verbatim>\<open>Date.now()\<close> is read before \<^verbatim>\<open>Number\<close> is applied, which may throw.
\<close>

definition store_token :: "env \<Rightarrow> json \<Rightarrow> state \<Rightarrow> (error + json) \<times> state" where
  "store_token E j st =
     (case Date_now E st of (now, st1) \<Rightarrow>
        (case Number_js (lib E) (nullish (prop_of j ''expires_in'') JNull) of
           Inl e \<Rightarrow> (Inl e, st1)
         | Inr n \<Rightarrow>
             (Inr j,
              st1\<lparr>cachedToken :=
                     Some \<lparr>access_token = nullish (prop_of j ''access_token'') JNull,
                           expiresAt = map_option (\<lambda>s. now + s * 1000) n\<rparr>\<rparr>)))"

definition acquire :: "env \<Rightarrow> state \<Rightarrow> (error + json) \<times> state" where
  "acquire E st =
     (case do_fetch E (token_request E) st of
        (Inl e, st1) \<Rightarrow> (Inl e, st1)
      | (Inr r, st1) \<Rightarrow>
          if \<not> ok r then (Inl (TokenTransportError (lib E) (status r)), st1)
          else (case body_json r of
                  None \<Rightarrow> (Inl TokenParseError, st1)
                | Some j \<Rightarrow>
                    if \<not> truthy (prop_of j ''access_token'') \<or> \<not> truthy (prop_of j ''expires_in'')
                    then (Inl TokenShapeError, st1)
                    else store_token E j st1))"

text \<open>
  \<^verbatim>\<open>
  if (cachedToken && Date.now() < cachedToken.expiresAt - 60000) {
      return { access_token: cachedToken.access_token,
               expires_in: Math.max(60, Math.floor((cachedToken.expiresAt - Date.now()) / 1000)) };
  }
  \<close>
  The clock is read only when there is a cached token, and once more on the cached path.
  \<open>cache_hit\<close> is the test alone.
\<close>

definition cache_hit :: "env \<Rightarrow> state \<Rightarrow> bool" where
  "cache_hit E st =
     (case cachedToken st of
        None \<Rightarrow> False
      | Some c \<Rightarrow> (case expiresAt c of
                     None \<Rightarrow> False
                   | Some e \<Rightarrow> clock E (ticks st) < e - 60000))"

definition getAppAccessToken :: "env \<Rightarrow> state \<Rightarrow> (error + json) \<times> state" where
  "getAppAccessToken E st =
     (case cachedToken st of
        None \<Rightarrow> acquire E st
      | Some c \<Rightarrow>
          (case Date_now E st of (now1, st1) \<Rightarrow>
             (case expiresAt c of
                None \<Rightarrow> acquire E st1
              | Some e \<Rightarrow>
                  if now1 < e - 60000
                  then (case Date_now E st1 of (now2, st2) \<Rightarrow>
                          (Inr (JObj [(''access_token'', access_token c),
                                      (''expires_in'', JNum (max 60 ((e - now2) div 1000)))]),
                           st2))
                  else acquire E st1)))"

section \<open>The proxy: \<^verbatim>\<open>msfProxy\<close>\<close>

text \<open>
  What a handler sends back: the status code, the \<^verbatim>\<open>Content-Type\<close> it sets (if any),
  and the body, either a value sent with \<^verbatim>\<open>res.json\<close> or a text sent with \<^verbatim>\<open>res.send\<close>.
\<close>

datatype payload = JsonBody json | TextBody string

record reply =
  code :: int
  ctype :: "string option"
  payload :: payload

definition json_reply :: "int \<Rightarrow> json \<Rightarrow> reply" where
  "json_reply c j = \<lparr>code = c, ctype = Some ''application/json'', payload = JsonBody j\<rparr>"

definition failure :: "int \<Rightarrow> string \<Rightarrow> reply" where
  "failure c msg = json_reply c (JObj [(''ok'', JBool False), (''error'', JStr msg)])"

text \<open>
  \<^verbatim>\<open>
  try {
      const path = String(req.query.path ?? "");
      if (!/^game\/v1\//.test(path)) {
          res.status(400).json({ ok: false, error: "path must start with game/v1/..." }); return; }
      const token = getCookie(req, "msf_at");
      if (!token) { res.status(401).json({ ok: false, error: "missing msf_at cookie" }); return; }
      const url = `${MSF_API_BASE.value().replace(/\/$/, "")}/${path}`;
      const upstream = await fetch(url, { headers: { "x-api-key": ..., "Authorization": `Bearer ${token}`, ... } });
      const body = await upstream.text();
      res.status(upstream.status);
      const ct = upstream.headers.get("content-type");
      if (ct) res.setHeader("Content-Type", ct);
      res.send(body);
  } catch (e) { res.status(500).json({ ok: false, error: e.message ?? String(e) }); }
  \<close>
\<close>

definition forward :: "env \<Rightarrow> string \<Rightarrow> string \<Rightarrow> state \<Rightarrow> reply \<times> state" where
  "forward E path token st =
     (case do_fetch E
             \<lparr>url = strip_trailing_slash (MSF_API_BASE E) @ ''/'' @ path,
              verb = ''GET'',
              headers = [(''x-api-key'', MSF_X_API_KEY E),
                         (''Authorization'', ''Bearer '' @ token),
                         (''User-Agent'', ''SynergyForge/1.0''),
                         (''Accept'', ''application/json''),
                         (''Accept-Language'', ''en-US,en;q=0.8'')],
              body = None\<rparr> st of
        (Inl e, st1) \<Rightarrow> (failure 500 (message e), st1)
      | (Inr r, st1) \<Rightarrow>
          (\<lparr>code = status r,
            ctype = (case content_type r of None \<Rightarrow> None
                     | Some ct \<Rightarrow> if ct = [] then None else Some ct),
            payload = TextBody (body_text r)\<rparr>, st1))"

definition msfProxy :: "env \<Rightarrow> incoming \<Rightarrow> state \<Rightarrow> reply \<times> state" where
  "msfProxy E req st =
     (case String_js (lib E) (nullish (query_path req) (JStr [])) of
        Inl e \<Rightarrow> (failure 500 (message e), st)
      | Inr path \<Rightarrow>
          if \<not> (take 8 path = ''game/v1/'')
          then (failure 400 ''path must start with game/v1/...'', st)
          else (case getCookie (lib E) req ''msf_at'' of
                  Inl e \<Rightarrow> (failure 500 (message e), st)
                | Inr None \<Rightarrow> (failure 401 ''missing msf_at cookie'', st)
                | Inr (Some token) \<Rightarrow>
                    if token = [] then (failure 401 ''missing msf_at cookie'', st)
                    else forward E path token st))"


section \<open>The ETL run: \<^verbatim>\<open>syncGameRef\<close>\<close>

text \<open>
  The value of \<^verbatim>\<open>perTotal\<close>: \<^verbatim>\<open>Infinity\<close> before the first page, afterwards the
  \<^verbatim>\<open>meta.perTotal\<close> of the last page (any value that is not \<^verbatim>\<open>null\<close>) or the number
  estimated from the size of that page. The loop test is \<^verbatim>\<open>allChars.length < perTotal\<close>,
  which converts its right operand to a number and is false on \<^verbatim>\<open>NaN\<close>.
\<close>

datatype total = Infinity | Total json

fun below_total :: "builtins \<Rightarrow> nat \<Rightarrow> total \<Rightarrow> error + bool" where
  "below_total B n Infinity = Inr True"
| "below_total B n (Total v) =
     ebind (Number_js B v) (\<lambda>m. Inr (case m of None \<Rightarrow> False | Some k \<Rightarrow> int n < k))"

definition perPage :: nat where
  "perPage = 200"

definition characters_path :: "builtins \<Rightarrow> nat \<Rightarrow> string" where
  "characters_path B page =
     ''game/v1/characters?lang=none&traitFormat=id&perPage='' @ NumberToString B (int perPage)
     @ ''&page='' @ NumberToString B (int page)"

text \<open>
  \<^verbatim>\<open>const items = Array.isArray(resp) ? resp : (resp.items ?? []);\<close> and then
  \<^verbatim>\<open>items.map(...)\<close>: reading \<^verbatim>\<open>items\<close> of \<^verbatim>\<open>null\<close> throws, and so does calling
  \<^verbatim>\<open>map\<close> on anything that is not an array.
\<close>

definition page_items :: "json \<Rightarrow> error + json list" where
  "page_items resp =
     (case resp of
        JArr xs \<Rightarrow> Inr xs
      | _ \<Rightarrow> ebind (get_prop resp ''items'') (\<lambda>i.
               case nullish i (JArr []) of
                 JArr xs \<Rightarrow> Inr xs
               | _ \<Rightarrow> Inl (TypeError ''items.map is not a function'')))"

text \<open>
  One round of the loop body, up to the assignment of \<^verbatim>\<open>perTotal\<close>:
  \<^verbatim>\<open>
  const path = `game/v1/characters?lang=none&traitFormat=id&perPage=${perPage}&page=${page}`;
  const resp = await fetchJSON(path, headers);
  const items = ...;
  const normalized = items.map((c) => { ... });
  allChars = allChars.concat(normalized);
  const meta = resp?.meta ?? {};
  perTotal = meta.perTotal ?? (items.length < perPage ? allChars.length : allChars.length + perPage);
  \<close>
  It gives the number of items of the page, the new \<^verbatim>\<open>allChars\<close> and the new \<^verbatim>\<open>perTotal\<close>.
\<close>

definition page_step ::
  "env \<Rightarrow> (string \<times> string) list \<Rightarrow> nat \<Rightarrow> json list \<Rightarrow> state
   \<Rightarrow> (error + nat \<times> json list \<times> total) \<times> state" where
  "page_step E hs page allChars st =
     (case fetchJSON E (characters_path (lib E) page) hs st of
        (Inl e, st1) \<Rightarrow> (Inl e, st1)
      | (Inr resp, st1) \<Rightarrow>
          (ebind (page_items resp) (\<lambda>items.
           ebind (emap (normalize (lib E)) items) (\<lambda>normalized.
             let allChars' = allChars @ normalized;
                 meta = nullish (prop_of resp ''meta'') (JObj [])
             in Inr (length items, allChars',
                     Total (nullish (prop_of meta ''perTotal'')
                              (JNum (int (if length items < perPage then length allChars'
                                          else length allChars' + perPage))))))),
           st1))"

text \<open>
  \<^verbatim>\<open>
  let page = 1; let allChars = []; let perTotal = Infinity;
  while (allChars.length < perTotal) {
      ... the round above ...
      if (items.length < perPage) break;
      page += 1;
      if (page > 200) break; // safety
  }
  \<close>
  The loop gives \<^verbatim>\<open>allChars\<close> and the final value of \<^verbatim>\<open>page\<close>, or the first exception.
\<close>

function chars_loop ::
  "env \<Rightarrow> (string \<times> string) list \<Rightarrow> nat \<Rightarrow> json list \<Rightarrow> total \<Rightarrow> state
   \<Rightarrow> (error + json list \<times> nat) \<times> state" where
  "chars_loop E hs page allChars perTotal st =
     (case below_total (lib E) (length allChars) perTotal of
        Inl e \<Rightarrow> (Inl e, st)
      | Inr False \<Rightarrow> (Inr (allChars, page), st)
      | Inr True \<Rightarrow>
          (case page_step E hs page allChars st of
             (Inl e, st1) \<Rightarrow> (Inl e, st1)
           | (Inr (n, allChars', perTotal'), st1) \<Rightarrow>
               if n < perPage then (Inr (allChars', page), st1)
               else if page + 1 > 200 then (Inr (allChars', page + 1), st1)
               else chars_loop E hs (page + 1) allChars' perTotal' st1))"
  by pat_completeness auto
termination
  by (relation "measure (\<lambda>(E, hs, page, allChars, perTotal, st). 200 - page)") auto

text \<open>
  The persistence writes. A rejected write throws and records nothing.
  \<^verbatim>\<open>
  await bucket.file(p).save(JSON.stringify(v, null, 2), { contentType: "application/json" });
  await db.collection("meta").doc("datasets").set({ ... }, { merge: true });
  \<close>
\<close>

definition save :: "env \<Rightarrow> string \<Rightarrow> json \<Rightarrow> state \<Rightarrow> (error + unit) \<times> state" where
  "save E p v st =
     (case save_error E p of
        Some e \<Rightarrow> (Inl e, st)
      | None \<Rightarrow> (Inr (), st\<lparr>trace := trace st @ [Save p v ''application/json'']\<rparr>))"

definition set_meta :: "env \<Rightarrow> json \<Rightarrow> state \<Rightarrow> (error + unit) \<times> state" where
  "set_meta E doc st =
     (case set_error E of
        Some e \<Rightarrow> (Inl e, st)
      | None \<Rightarrow> (Inr (), st\<lparr>trace := trace st @ [SetDoc ''meta'' ''datasets'' doc True]\<rparr>))"

text \<open>
  \<^verbatim>\<open>Array.isArray(traits) ? traits.length : (traits.items?.length ?? 0)\<close>: the
  \<^verbatim>\<open>length\<close> of an array or of a string, the own property \<^verbatim>\<open>length\<close> of an object.
\<close>

fun length_js :: "builtins \<Rightarrow> json \<Rightarrow> json option" where
  "length_js B (JArr xs) = Some (JNum (int (length xs)))"
| "length_js B (JStr s) = Some (JNum (int (StringLength B s)))"
| "length_js B (JObj kvs) = map_of kvs ''length''"
| "length_js B _ = None"

definition traitsCount :: "builtins \<Rightarrow> json \<Rightarrow> error + json" where
  "traitsCount B traits =
     (case traits of
        JArr xs \<Rightarrow> Inr (JNum (int (length xs)))
      | _ \<Rightarrow> ebind (get_prop traits ''items'') (\<lambda>i.
               Inr (nullish (case nullish i JNull of JNull \<Rightarrow> None | v \<Rightarrow> length_js B v)
                            (JNum 0))))"

text \<open>
  The part of \<^verbatim>\<open>syncGameRef\<close> after the loop: the two artifacts, the counts, the
  metadata document (\<^verbatim>\<open>Timestamp.now()\<close> is a read of the clock) and the reply.
\<close>

definition counts_json :: "json \<Rightarrow> nat \<Rightarrow> json" where
  "counts_json tc n = JObj [(''traits'', tc), (''characters'', JNum (int n))]"

definition persist :: "env \<Rightarrow> json \<Rightarrow> json list \<Rightarrow> nat \<Rightarrow> state \<Rightarrow> (error + reply) \<times> state" where
  "persist E traits allChars page st =
     (case save E ''datasets/traits.json'' traits st of
        (Inl e, st1) \<Rightarrow> (Inl e, st1)
      | (Inr _, st1) \<Rightarrow>
     (case save E ''datasets/characters.json''
             (JObj [(''items'', JArr allChars),
                    (''meta'', JObj [(''perTotal'', JNum (int (length allChars))),
                                     (''perPage'', JNum (int perPage)),
                                     (''page'', JNum (int page))])]) st1 of
        (Inl e, st2) \<Rightarrow> (Inl e, st2)
      | (Inr _, st2) \<Rightarrow>
     (case traitsCount (lib E) traits of
        Inl e \<Rightarrow> (Inl e, st2)
      | Inr tc \<Rightarrow>
     (case Date_now E st2 of (now, st3) \<Rightarrow>
     (case set_meta E (JObj [(''updatedAt'', JNum now),
                             (''counts'', counts_json tc (length allChars))]) st3 of
        (Inl e, st4) \<Rightarrow> (Inl e, st4)
      | (Inr _, st4) \<Rightarrow>
          (Inr (json_reply 200
                  (JObj [(''ok'', JBool True),
                         (''written'', JObj [(''traits'', JStr ''datasets/traits.json''),
                                             (''characters'', JStr ''datasets/characters.json'')]),
                         (''counts'', counts_json tc (length allChars))])),
           st4))))))"

text \<open>
  The fetching part of \<^verbatim>\<open>syncGameRef\<close>: the token, the headers, the traits, the
  characters.
  \<^verbatim>\<open>
  const { access_token } = await getAppAccessToken();
  const headers = { "x-api-key": MSF_X_API_KEY.value(), "Authorization": `Bearer ${access_token}`,
                    "User-Agent": "SynergyForge/1.0", "Accept": "application/json" };
  const traits = await fetchJSON("game/v1/traits?lang=none", headers);
  \<close>
\<close>

definition sync_headers :: "env \<Rightarrow> json \<Rightarrow> error + (string \<times> string) list" where
  "sync_headers E tok =
     ebind (get_prop tok ''access_token'') (\<lambda>a.
     ebind (case a of None \<Rightarrow> Inr ''undefined'' | Some v \<Rightarrow> String_js (lib E) v) (\<lambda>s.
       Inr [(''x-api-key'', MSF_X_API_KEY E),
            (''Authorization'', ''Bearer '' @ s),
            (''User-Agent'', ''SynergyForge/1.0''),
            (''Accept'', ''application/json'')]))"

definition fetch_all :: "env \<Rightarrow> state \<Rightarrow> (error + json \<times> json list \<times> nat) \<times> state" where
  "fetch_all E st =
     (case getAppAccessToken E st of
        (Inl e, st1) \<Rightarrow> (Inl e, st1)
      | (Inr tok, st1) \<Rightarrow>
     (case sync_headers E tok of
        Inl e \<Rightarrow> (Inl e, st1)
      | Inr hs \<Rightarrow>
     (case fetchJSON E ''game/v1/traits?lang=none'' hs st1 of
        (Inl e, st2) \<Rightarrow> (Inl e, st2)
      | (Inr traits, st2) \<Rightarrow>
     (case chars_loop E hs 1 [] Infinity st2 of
        (Inl e, st3) \<Rightarrow> (Inl e, st3)
      | (Inr (allChars, page), st3) \<Rightarrow> (Inr (traits, allChars, page), st3)))))"

text \<open>
  The handler: everything runs inside \<^verbatim>\<open>try\<close>, and
  \<^verbatim>\<open>catch (e) { res.status(500).json({ ok: false, error: e.message ?? String(e) }); }\<close>
\<close>

definition syncGameRef :: "env \<Rightarrow> state \<Rightarrow> reply \<times> state" where
  "syncGameRef E st =
     (case fetch_all E st of
        (Inl e, st1) \<Rightarrow> (failure 500 (message e), st1)
      | (Inr (traits, allChars, page), st1) \<Rightarrow>
          (case persist E traits allChars page st1 of
             (Inl e, st2) \<Rightarrow> (failure 500 (message e), st2)
           | (Inr r, st2) \<Rightarrow> (r, st2)))"


section \<open>Predicates on inputs, and a concrete runtime for examples\<close>

text \<open>
  \<open>printable v\<close>: \<^verbatim>\<open>String(v)\<close> does not throw. It throws exactly when it meets an
  object with an own property \<^verbatim>\<open>toString\<close>, at \<open>v\<close> itself or in the arrays it joins.
\<close>

fun printable :: "json \<Rightarrow> bool" where
  "printable (JArr xs) = list_all printable xs"
| "printable (JObj kvs) = (''toString'' \<notin> fst ` set kvs)"
| "printable _ = True"

text \<open>
  \<open>convertible c\<close>: every value of the raw record \<open>c\<close> that the normalizer passes to
  \<^verbatim>\<open>String\<close> is printable: the \<^verbatim>\<open>id\<close>, the elements of \<^verbatim>\<open>traits\<close> when it is an array,
  and \<^verbatim>\<open>imageUrl\<close>, \<^verbatim>\<open>faction\<close> and \<^verbatim>\<open>role\<close> when they are truthy.
\<close>

definition printable_opt :: "json option \<Rightarrow> bool" where
  "printable_opt v = (case v of None \<Rightarrow> True | Some w \<Rightarrow> printable w)"

definition convertible :: "json \<Rightarrow> bool" where
  "convertible c =
     (printable_opt (prop_of c ''id'')
      \<and> printable_opt (prop_of c ''imageUrl'')
      \<and> (case prop_of c ''traits'' of Some (JArr ts) \<Rightarrow> list_all printable ts | _ \<Rightarrow> True)
      \<and> printable_opt (prop_of c ''faction'')
      \<and> printable_opt (prop_of c ''role''))"

text \<open>
  \<open>declared resp\<close> is the \<^verbatim>\<open>meta.perTotal\<close> of a page, and \<open>open_ended resp n\<close> says
  that it does not end the loop when \<open>n\<close> items are accumulated: it is absent or
  \<^verbatim>\<open>null\<close>, or a number above \<open>n\<close>.
\<close>

definition declared :: "json \<Rightarrow> json option" where
  "declared resp = prop_of (nullish (prop_of resp ''meta'') (JObj [])) ''perTotal''"

definition open_ended :: "json \<Rightarrow> nat \<Rightarrow> bool" where
  "open_ended resp n =
     (case declared resp of
        None \<Rightarrow> True
      | Some JNull \<Rightarrow> True
      | Some (JNum m) \<Rightarrow> int n < m
      | Some _ \<Rightarrow> False)"

text \<open>The request that \<^verbatim>\<open>fetchJSON\<close> sends for a path, and the one for a page.\<close>

definition api_request :: "env \<Rightarrow> (string \<times> string) list \<Rightarrow> string \<Rightarrow> request" where
  "api_request E hs path =
     \<lparr>url = strip_trailing_slash (MSF_API_BASE E) @ ''/'' @ strip_leading_slash path,
      verb = ''GET'', headers = hs, body = None\<rparr>"

definition page_request :: "env \<Rightarrow> (string \<times> string) list \<Rightarrow> nat \<Rightarrow> request" where
  "page_request E hs page = api_request E hs (characters_path (lib E) page)"

text \<open>
  A runtime library for the evaluation of examples. It agrees with Node.js on the integers
  below \<open>10\<^sup>2\<^sup>1\<close> in absolute value, on strings of decimal digits, on ASCII strings
  and on escapes of ASCII characters; other strings are \<^verbatim>\<open>NaN\<close> as numbers and
  malformed as URI components here.
\<close>

definition digit :: "nat \<Rightarrow> char" where
  "digit d = char_of (48 + d)"

function digits :: "nat \<Rightarrow> string" where
  "digits n = (if n < 10 then [digit n] else digits (n div 10) @ [digit (n mod 10)])"
  by pat_completeness auto
termination
  by (relation "measure id") auto

definition show_int :: "int \<Rightarrow> string" where
  "show_int i = (if i < 0 then CHR ''-'' # digits (nat (- i)) else digits (nat i))"

definition is_digit :: "char \<Rightarrow> bool" where
  "is_digit c = (48 \<le> (of_char c :: nat) \<and> (of_char c :: nat) \<le> 57)"

definition read_nat :: "string \<Rightarrow> int option" where
  "read_nat s =
     (if list_all is_digit s
      then Some (foldl (\<lambda>a c. 10 * a + (int (of_char c) - 48)) 0 s)
      else None)"

definition hex_val :: "char \<Rightarrow> nat option" where
  "hex_val c =
     (let n = (of_char c :: nat) in
      if 48 \<le> n \<and> n \<le> 57 then Some (n - 48)
      else if 65 \<le> n \<and> n \<le> 70 then Some (n - 55)
      else if 97 \<le> n \<and> n \<le> 102 then Some (n - 87)
      else None)"

fun unescape :: "string \<Rightarrow> string option" where
  "unescape [] = Some []"
| "unescape (c # cs) =
     (if c = CHR ''%''
      then (case cs of
              a # b # rest \<Rightarrow>
                (case (hex_val a, hex_val b) of
                   (Some h, Some l) \<Rightarrow>
                     if h < 8 then map_option ((#) (char_of (16 * h + l))) (unescape rest)
                     else None
                 | _ \<Rightarrow> None)
            | _ \<Rightarrow> None)
      else map_option ((#) c) (unescape cs))"

definition b64_char :: "nat \<Rightarrow> char" where
  "b64_char n =
     (''ABCDEFGHIJKLMNOPQRSTUVWXYZabcdefghijklmnopqrstuvwxyz0123456789+/'') ! n"

fun b64 :: "nat list \<Rightarrow> string" where
  "b64 [] = []"
| "b64 [a] = [b64_char (a div 4), b64_char ((a mod 4) * 16), CHR ''='', CHR ''='']"
| "b64 [a, b] =
     [b64_char (a div 4), b64_char ((a mod 4) * 16 + b div 16),
      b64_char ((b mod 16) * 4), CHR ''='']"
| "b64 (a # b # c # rest) =
     [b64_char (a div 4), b64_char ((a mod 4) * 16 + b div 16),
      b64_char ((b mod 16) * 4 + c div 64), b64_char (c mod 64)] @ b64 rest"

definition node_lib :: builtins where
  "node_lib =
     \<lparr>NumberToString = show_int,
      StringToNumber = read_nat,
      StringLength = length,
      decodeURIComponent = unescape,
      base64 = (\<lambda>s. b64 (map of_char s))\<rparr>"

text \<open>
  An example deployment: its upstream answers a request by its URL alone, its clock
  advances by one second at each read, and its writes succeed.
\<close>

definition example_env :: "(string \<Rightarrow> error + http_response) \<Rightarrow> env" where
  "example_env upstream =
     \<lparr>MSF_CLIENT_ID = ''client'',
      MSF_CLIENT_SECRET = ''secret'',
      MSF_TOKEN_URL = ''https://auth.example/oauth2/token'',
      MSF_API_BASE = ''https://api.example/'',
      MSF_X_API_KEY = ''key'',
      lib = node_lib,
      network = (\<lambda>n q. upstream (url q)),
      clock = (\<lambda>k. 1000 * int k),
      save_error = (\<lambda>p. None),
      set_error = None\<rparr>"

definition json_response :: "json \<Rightarrow> http_response" where
  "json_response j =
     \<lparr>status = 200, statusText = ''OK'', content_type = Some ''application/json'',
      body_text = [], body_json = Some j\<rparr>"

definition cold :: state where
  "cold = \<lparr>cachedToken = None, trace = [], ticks = 0\<rparr>"

definition token_json :: "int \<Rightarrow> json" where
  "token_json n = JObj [(''access_token'', JStr ''abc''), (''expires_in'', JNum n)]"

definition token_only :: "int \<Rightarrow> string \<Rightarrow> error + http_response" where
  "token_only n u =
     (if u = ''https://auth.example/oauth2/token'' then Inr (json_response (token_json n))
      else Inl (FetchFailed ''fetch failed''))"

text \<open>
  Two calls of \<^verbatim>\<open>getAppAccessToken\<close> one after the other in the same process, and the
  state of a process whose cache holds a token that expires 3600 seconds after time 0.
\<close>

definition two_calls :: "env \<Rightarrow> state \<Rightarrow> (error + json) \<times> (error + json) \<times> state" where
  "two_calls E st =
     (case getAppAccessToken E st of (r1, st1) \<Rightarrow>
        (case getAppAccessToken E st1 of (r2, st2) \<Rightarrow> (r1, r2, st2)))"

definition warm :: state where
  "warm = \<lparr>cachedToken = Some \<lparr>access_token = JStr ''abc'', expiresAt = Some 3600000\<rparr>,
           trace = [], ticks = 0\<rparr>"

text \<open>The example deployment without a client secret.\<close>

definition no_secret :: "env \<Rightarrow> env" where
  "no_secret E = E\<lparr>MSF_CLIENT_SECRET := []\<rparr>"

text \<open>
  \<open>answers E n q j\<close>: the \<open>n\<close>-th call of the process, sending \<open>q\<close>, gets a successful
  response whose body decodes to \<open>j\<close>. \<open>normalizable items\<close>: no item is \<^verbatim>\<open>null\<close> and
  every item is convertible, so that the normalizer accepts each of them.
\<close>

definition answers :: "env \<Rightarrow> nat \<Rightarrow> request \<Rightarrow> json \<Rightarrow> bool" where
  "answers E n q j =
     (case network E n q of Inl e \<Rightarrow> False | Inr r \<Rightarrow> ok r \<and> body_json r = Some j)"

definition normalizable :: "json list \<Rightarrow> bool" where
  "normalizable items = list_all (\<lambda>c. c \<noteq> JNull \<and> convertible c) items"

text \<open>
  An example game API behind the example deployment: the token endpoint, the traits, and
  character pages whose sizes are given by \<open>sz\<close>, each a bare array of copies of one
  record.
\<close>

definition hero :: json where
  "hero = JObj [(''id'', JNum 7), (''name'', JStr ''Hulk''), (''traits'', JArr [JStr ''Hero''])]"

definition fast :: json where
  "fast = JArr [JObj [(''id'', JStr ''t1''), (''name'', JStr ''Fast'')]]"

definition page_of :: "string \<Rightarrow> nat option" where
  "page_of u =
     (if take 81 u
         = ''https://api.example/game/v1/characters?lang=none&traitFormat=id&perPage=200&page=''
      then map_option nat (read_nat (drop 81 u)) else None)"

definition game_api :: "(nat \<Rightarrow> nat) \<Rightarrow> string \<Rightarrow> error + http_response" where
  "game_api sz u =
     (if u = ''https://auth.example/oauth2/token'' then Inr (json_response (token_json 1800))
      else if u = ''https://api.example/game/v1/traits?lang=none'' then Inr (json_response fast)
      else (case page_of u of
              None \<Rightarrow> Inl (FetchFailed ''fetch failed'')
            | Some p \<Rightarrow> Inr (json_response (JArr (replicate (sz p) hero)))))"

definition three_sizes :: "nat \<Rightarrow> nat" where
  "three_sizes p = (if p = 1 \<or> p = 2 then 200 else if p = 3 then 47 else 0)"

text \<open>The headers that \<^verbatim>\<open>syncGameRef\<close> sends when the access token is the string \<open>s\<close>.\<close>

definition bearer_headers :: "env \<Rightarrow> string \<Rightarrow> (string \<times> string) list" where
  "bearer_headers E s =
     [(''x-api-key'', MSF_X_API_KEY E),
      (''Authorization'', ''Bearer '' @ s),
      (''User-Agent'', ''SynergyForge/1.0''),
      (''Accept'', ''application/json'')]"

section \<open>Properties\<close>


subsection \<open>Sequencing and conversions\<close>

lemma ebind_Inr_iff: "ebind m f = Inr y \<longleftrightarrow> (\<exists>x. m = Inr x \<and> f x = Inr y)"
  by (cases m) (simp_all add: ebind_def)

lemma ebind_Inr [simp]: "ebind (Inr x) f = f x"
  by (simp add: ebind_def)

lemma ebind_Inl [simp]: "ebind (Inl e) f = Inl e"
  by (simp add: ebind_def)

lemma String_js_succeeds:
  "(\<exists>s. String_js B v = Inr s) \<longleftrightarrow> printable v"
  "(\<exists>s. join_js B xs = Inr s) \<longleftrightarrow> list_all printable xs"
  "(\<exists>s. elem_js B w = Inr s) \<longleftrightarrow> printable w"
  by (induction B v and B xs and B w rule: String_js_join_js_elem_js.induct)
     (auto simp: ebind_Inr_iff)

lemma emap_succeeds:
  "(\<exists>ys. emap f xs = Inr ys) \<longleftrightarrow> list_all (\<lambda>x. \<exists>y. f x = Inr y) xs"
  by (induction xs) (auto simp: ebind_Inr_iff)

lemma emap_length: "emap f xs = Inr ys \<Longrightarrow> length ys = length xs"
  by (induction xs arbitrary: ys) (auto simp: ebind_Inr_iff)

lemma printable_nullish:
  "printable_opt v \<Longrightarrow> printable d \<Longrightarrow> printable (nullish v d)"
  by (cases "(v, d)" rule: nullish.cases) (simp_all add: printable_opt_def)

subsection \<open>The normalizer\<close>

lemma opt_field_shape:
  assumes "printable_opt (prop_of c k)"
  shows "\<exists>l. opt_field B c k = Inr l \<and> (l = [] \<or> (\<exists>s. l = [(k, JStr s)]))"
proof (cases "truthy (prop_of c k)")
  case True
  from assms have "printable (nullish (prop_of c k) JNull)"
    by (rule printable_nullish) simp
  then obtain s where "String_js B (nullish (prop_of c k) JNull) = Inr s"
    using String_js_succeeds(1) by blast
  with True show ?thesis by (simp add: opt_field_def)
next
  case False
  then show ?thesis by (simp add: opt_field_def)
qed

lemma traits_field_shape:
  assumes "case prop_of c ''traits'' of Some (JArr ts) \<Rightarrow> list_all printable ts | _ \<Rightarrow> True"
  shows "\<exists>ss. traits_field B c = Inr (map JStr ss)"
proof (cases "\<exists>ts. prop_of c ''traits'' = Some (JArr ts)")
  case True
  then obtain ts where ts: "prop_of c ''traits'' = Some (JArr ts)" by blast
  with assms have "list_all printable ts" by simp
  then have "list_all (\<lambda>x. \<exists>y. String_js B x = Inr y) ts"
    by (simp add: String_js_succeeds(1))
  then obtain ss where "emap (String_js B) ts = Inr ss"
    using emap_succeeds by blast
  with ts show ?thesis by (auto simp: traits_field_def)
next
  case False
  then have "traits_field B c = Inr []"
    by (auto simp: traits_field_def split: option.splits json.splits)
  then show ?thesis by simp
qed

lemma normalize_value:
  assumes "c \<noteq> JNull" and "convertible c"
  shows "\<exists>ids img ts fac rol.
           normalize B c =
             Inr (JObj ([(''id'', JStr ids), (''name'', nullish (prop_of c ''name'') (JStr []))]
                        @ img @ [(''traits'', JArr (map JStr ts))] @ fac @ rol @ stats_field c))
           \<and> map_of img ''traits'' = None"
proof -
  from assms(2) have "printable (nullish (prop_of c ''id'') (JStr []))"
    by (intro printable_nullish) (simp_all add: convertible_def)
  then obtain ids where ids: "String_js B (nullish (prop_of c ''id'') (JStr [])) = Inr ids"
    using String_js_succeeds(1) by blast
  from assms(2) obtain img where img: "opt_field B c ''imageUrl'' = Inr img"
    and img': "img = [] \<or> (\<exists>s. img = [(''imageUrl'', JStr s)])"
    using opt_field_shape[of c "''imageUrl''" B] by (auto simp: convertible_def)
  from assms(2) obtain fac where fac: "opt_field B c ''faction'' = Inr fac"
    using opt_field_shape[of c "''faction''" B] by (auto simp: convertible_def)
  from assms(2) obtain rol where rol: "opt_field B c ''role'' = Inr rol"
    using opt_field_shape[of c "''role''" B] by (auto simp: convertible_def)
  from assms(2) obtain ts where ts: "traits_field B c = Inr (map JStr ts)"
    using traits_field_shape[of c B] by (auto simp: convertible_def)
  have "normalize B c =
          Inr (JObj ([(''id'', JStr ids), (''name'', nullish (prop_of c ''name'') (JStr []))]
                     @ img @ [(''traits'', JArr (map JStr ts))] @ fac @ rol @ stats_field c))"
    using assms(1) ids img fac rol ts by (simp add: normalize_def get_prop_def)
  moreover have "map_of img ''traits'' = None"
    using img' by auto
  ultimately show ?thesis by blast
qed

lemma normalize_succeeds: "c \<noteq> JNull \<Longrightarrow> convertible c \<Longrightarrow> \<exists>out. normalize B c = Inr out"
  using normalize_value[of c B] by blast

text \<open>
  Claim C1, as the code has it. The normalizer does not accept every JSON value: on
  \<^verbatim>\<open>null\<close> the read of \<^verbatim>\<open>c.id\<close> throws, \<^verbatim>\<open>String\<close> throws on an object with an own
  \<^verbatim>\<open>toString\<close> property, and \<^verbatim>\<open>name\<close> is copied, not converted. What holds: for
  every raw record other than \<^verbatim>\<open>null\<close> (an object, an array or a primitive) whose
  \<^verbatim>\<open>id\<close>, trait elements and truthy \<^verbatim>\<open>imageUrl\<close>, \<^verbatim>\<open>faction\<close>, \<^verbatim>\<open>role\<close> can be
  converted by \<^verbatim>\<open>String\<close>, the normalizer returns, without throwing, an object whose
  \<^verbatim>\<open>id\<close> is a string, whose \<^verbatim>\<open>traits\<close> is an array of strings, and whose \<^verbatim>\<open>name\<close> is
  the raw \<^verbatim>\<open>name\<close>, or the empty string when that is absent or \<^verbatim>\<open>null\<close>.
\<close>

theorem normalize_defined:
  assumes "c \<noteq> JNull" and "convertible c"
  shows "\<exists>kvs ids ts. normalize B c = Inr (JObj kvs)
           \<and> map_of kvs ''id'' = Some (JStr ids)
           \<and> map_of kvs ''name'' = Some (nullish (prop_of c ''name'') (JStr []))
           \<and> map_of kvs ''traits'' = Some (JArr (map JStr ts))"
proof -
  from normalize_value[OF assms, of B] obtain ids img ts fac rol where
    n: "normalize B c =
          Inr (JObj ([(''id'', JStr ids), (''name'', nullish (prop_of c ''name'') (JStr []))]
                     @ img @ [(''traits'', JArr (map JStr ts))] @ fac @ rol @ stats_field c))"
    and i: "map_of img ''traits'' = None"
    by blast
  show ?thesis
    by (intro exI[of _ "[(''id'', JStr ids), (''name'', nullish (prop_of c ''name'') (JStr []))]
                     @ img @ [(''traits'', JArr (map JStr ts))] @ fac @ rol @ stats_field c"]
              exI[of _ ids] exI[of _ ts]) (simp add: n i map_add_def)
qed

theorem normalize_defined_witness:
  "\<exists>kvs ids ts. normalize node_lib (JObj [(''id'', JNum 12), (''name'', JStr ''Hulk''),
        (''traits'', JArr [JStr ''Hero'', JNum 3]), (''faction'', JBool True)]) = Inr (JObj kvs)
           \<and> map_of kvs ''id'' = Some (JStr ids)
           \<and> map_of kvs ''name'' = Some (JStr ''Hulk'')
           \<and> map_of kvs ''traits'' = Some (JArr (map JStr ts))"
  using normalize_defined[of "JObj [(''id'', JNum 12), (''name'', JStr ''Hulk''),
        (''traits'', JArr [JStr ''Hero'', JNum 3]), (''faction'', JBool True)]" node_lib]
  by (simp add: convertible_def printable_opt_def)

text \<open>
  Against C1 as stated: the raw record \<^verbatim>\<open>null\<close> makes the normalizer throw, and the
  raw record \<^verbatim>\<open>{"name": 7}\<close> gives a \<^verbatim>\<open>name\<close> that is a number.
\<close>

theorem normalize_counterexample:
  "normalize node_lib JNull = Inl (TypeError ''Cannot read properties of null (reading id)'')
   \<and> normalize node_lib (JObj [(''name'', JNum 7)])
       = Inr (JObj [(''id'', JStr []), (''name'', JNum 7), (''traits'', JArr [])])"
  by (simp add: normalize_def get_prop_def opt_field_def traits_field_def stats_field_def)


subsection \<open>The proxy\<close>

lemma find_cookie_None:
  "find_cookie B name parts = Inr None \<longleftrightarrow> (\<forall>p \<in> set parts. hd (split_on CHR ''='' p) \<noteq> name)"
  by (induction parts) (auto simp: Let_def split: option.splits)

lemma getCookie_no_header:
  "cookie req = None \<Longrightarrow> name \<noteq> [] \<Longrightarrow> getCookie B req name = Inr None"
  by (auto simp: getCookie_def)

text \<open>
  Claim C3, as the code has it. The path is tested before the cookie, so a request
  without the \<^verbatim>\<open>msf_at\<close> cookie is not always answered with 401. What holds: for every
  request for which \<^verbatim>\<open>getCookie(req, "msf_at")\<close> is \<^verbatim>\<open>null\<close>, no upstream call is
  attempted (the state, with its trace of calls, is unchanged), and the reply is 401
  when the path starts with \<^verbatim>\<open>game/v1/\<close>, 400 when it does not, and 500 when the
  \<^verbatim>\<open>path\<close> parameter cannot be converted to a string.
\<close>

theorem msfProxy_without_token:
  assumes "getCookie (lib E) req ''msf_at'' = Inr None"
  shows "snd (msfProxy E req st) = st
         \<and> code (fst (msfProxy E req st)) =
             (case String_js (lib E) (nullish (query_path req) (JStr [])) of
                Inl e \<Rightarrow> 500
              | Inr path \<Rightarrow> if take 8 path = ''game/v1/'' then 401 else 400)"
  using assms by (simp add: msfProxy_def failure_def json_reply_def split: sum.splits)

theorem msfProxy_without_token_witness:
  "snd (msfProxy (example_env (token_only 0))
          \<lparr>query_path = Some (JStr ''game/v1/characters''), cookie = Some ''theme=dark; lang=en''\<rparr> cold) = cold
   \<and> code (fst (msfProxy (example_env (token_only 0))
          \<lparr>query_path = Some (JStr ''game/v1/characters''), cookie = Some ''theme=dark; lang=en''\<rparr> cold)) = 401"
  using msfProxy_without_token[of "example_env (token_only 0)"
          "\<lparr>query_path = Some (JStr ''game/v1/characters''), cookie = Some ''theme=dark; lang=en''\<rparr>" cold]
  by (simp add: getCookie_def example_env_def is_space_def)

text \<open>
  Against C3 as stated: the request for \<^verbatim>\<open>admin/v1/delete\<close> without any cookie is
  answered with 400, not 401.
\<close>

theorem msfProxy_counterexample:
  "msfProxy (example_env (token_only 0))
     \<lparr>query_path = Some (JStr ''admin/v1/delete''), cookie = None\<rparr> cold
   = (failure 400 ''path must start with game/v1/...'', cold)"
  by (simp add: msfProxy_def example_env_def)


subsection \<open>Token acquisition\<close>

lemma String_js_error:
  "String_js B v = Inl e \<Longrightarrow> e = TypeError ''Cannot convert object to primitive value''"
  "join_js B xs = Inl e \<Longrightarrow> e = TypeError ''Cannot convert object to primitive value''"
  "elem_js B w = Inl e \<Longrightarrow> e = TypeError ''Cannot convert object to primitive value''"
  by (induction B v and B xs and B w rule: String_js_join_js_elem_js.induct)
     (auto simp: ebind_def split: sum.splits if_splits)

lemma Number_js_error:
  "Number_js B v = Inl e \<Longrightarrow> e = TypeError ''Cannot convert object to primitive value''"
  by (cases v) (auto simp: ebind_def split: sum.splits if_splits dest: String_js_error)

lemma getAppAccessToken_hit:
  assumes "cachedToken st = Some c" and "expiresAt c = Some e" and "clock E (ticks st) < e - 60000"
  shows "getAppAccessToken E st =
           (Inr (JObj [(''access_token'', access_token c),
                       (''expires_in'', JNum (max 60 ((e - clock E (Suc (ticks st))) div 1000)))]),
            st\<lparr>ticks := Suc (Suc (ticks st))\<rparr>)"
  using assms by (simp add: getAppAccessToken_def Date_now_def)

lemma getAppAccessToken_miss:
  assumes "\<not> cache_hit E st"
  shows "getAppAccessToken E st =
           acquire E (if cachedToken st = None then st else st\<lparr>ticks := Suc (ticks st)\<rparr>)"
  using assms
  by (auto simp: getAppAccessToken_def cache_hit_def Date_now_def split: option.splits)

lemma acquire_trace: "trace (snd (acquire E st)) = trace st @ [Fetch (token_request E)]"
  by (simp add: acquire_def do_fetch_def store_token_def Date_now_def
           split: sum.splits option.splits prod.splits)

lemma acquire_Inr:
  assumes "fst (acquire E st) = Inr tok"
  shows "\<exists>r. network E (length (fetches (trace st))) (token_request E) = Inr r
              \<and> ok r \<and> body_json r = Some tok"
  using assms
  by (auto simp: acquire_def do_fetch_def store_token_def Date_now_def
           split: sum.splits option.splits prod.splits if_splits)

lemma acquire_shape:
  assumes "network E (length (fetches (trace st))) (token_request E) = Inr r"
    and "ok r" and "body_json r = Some j"
  shows "fst (acquire E st) = Inl TokenShapeError
           \<longleftrightarrow> \<not> truthy (prop_of j ''access_token'') \<or> \<not> truthy (prop_of j ''expires_in'')"
  using assms
  by (auto simp: acquire_def do_fetch_def store_token_def Date_now_def TokenShapeError_def
           split: sum.splits dest: Number_js_error)

lemma acquire_accepts:
  assumes "network E (length (fetches (trace st))) (token_request E) = Inr r"
    and "ok r" and "body_json r = Some j"
    and "truthy (prop_of j ''access_token'')"
    and "prop_of j ''expires_in'' = Some (JNum n)" and "n \<noteq> 0"
  shows "acquire E st =
           (Inr j, st\<lparr>trace := trace st @ [Fetch (token_request E)],
                      ticks := Suc (ticks st),
                      cachedToken := Some \<lparr>access_token = nullish (prop_of j ''access_token'') JNull,
                                            expiresAt = Some (clock E (ticks st) + n * 1000)\<rparr>\<rparr>)"
  using assms
  by (simp add: acquire_def do_fetch_def store_token_def Date_now_def)

text \<open>The example deployment on a cold cache, evaluated.\<close>

lemma example_token_request:
  "token_request (example_env up) =
     \<lparr>url = ''https://auth.example/oauth2/token'', verb = ''POST'',
      headers = [(''Content-Type'', ''application/x-www-form-urlencoded''),
                 (''Authorization'', ''Basic '' @ base64 node_lib ''client:secret'')],
      body = Some [(''grant_type'', ''client_credentials''), (''scope'', ''openid'')]\<rparr>"
  by (simp add: token_request_def useBasic_def example_env_def)

lemma example_network:
  "network (example_env (token_only n)) k (token_request (example_env (token_only n)))
     = Inr (json_response (token_json n))"
  by (simp add: example_token_request) (simp add: example_env_def token_only_def)

lemma example_cold: "\<not> cache_hit E cold" "cachedToken cold = None" "trace cold = []" "ticks cold = 0"
  by (simp_all add: cache_hit_def cold_def)

lemma ok_json_response: "ok (json_response j)" "body_json (json_response j) = Some j"
  by (simp_all add: ok_def json_response_def)

lemma example_fresh:
  assumes "n \<noteq> 0"
  shows "fst (getAppAccessToken (example_env (token_only n)) cold) = Inr (token_json n)"
proof -
  have "acquire (example_env (token_only n)) cold
          = (Inr (token_json n),
             cold\<lparr>trace := trace cold @ [Fetch (token_request (example_env (token_only n)))],
                  ticks := Suc (ticks cold),
                  cachedToken := Some \<lparr>access_token = nullish (prop_of (token_json n) ''access_token'') JNull,
                                        expiresAt = Some (clock (example_env (token_only n)) (ticks cold) + n * 1000)\<rparr>\<rparr>)"
    by (rule acquire_accepts[OF example_network ok_json_response])
       (simp_all add: token_json_def assms)
  then show ?thesis
    by (simp add: getAppAccessToken_miss[OF example_cold(1)] example_cold(2))
qed

text \<open>
  Claim C2, as the code has it. The value 60 is a lower bound of what the cached path
  reports only; the fresh path returns the decoded response of the token endpoint as it
  is. What holds, from any state (so at every call of any sequence of calls): when the
  cached token is served, the reported \<^verbatim>\<open>expires_in\<close> is a number that is at least 60;
  when it is not, whatever \<^verbatim>\<open>getAppAccessToken\<close> returns is the decoded body of the
  successful response to its token request, with the \<^verbatim>\<open>expires_in\<close> that the endpoint
  sent.
\<close>

theorem expires_in_reported:
  "(cache_hit E st \<longrightarrow>
      (\<exists>a n. fst (getAppAccessToken E st)
               = Inr (JObj [(''access_token'', a), (''expires_in'', JNum n)]) \<and> 60 \<le> n))
   \<and> (\<not> cache_hit E st \<longrightarrow>
      (\<forall>tok. fst (getAppAccessToken E st) = Inr tok \<longrightarrow>
         (\<exists>r. network E (length (fetches (trace st))) (token_request E) = Inr r
               \<and> ok r \<and> body_json r = Some tok)))"
proof (intro conjI impI allI)
  assume "cache_hit E st"
  then obtain c e where "cachedToken st = Some c" "expiresAt c = Some e"
    "clock E (ticks st) < e - 60000"
    by (auto simp: cache_hit_def split: option.splits)
  then show "\<exists>a n. fst (getAppAccessToken E st)
               = Inr (JObj [(''access_token'', a), (''expires_in'', JNum n)]) \<and> 60 \<le> n"
    by (simp add: getAppAccessToken_hit)
next
  fix tok
  assume miss: "\<not> cache_hit E st" and ret: "fst (getAppAccessToken E st) = Inr tok"
  let ?st = "if cachedToken st = None then st else st\<lparr>ticks := Suc (ticks st)\<rparr>"
  from ret have "fst (acquire E ?st) = Inr tok"
    unfolding getAppAccessToken_miss[OF miss] .
  from acquire_Inr[OF this]
  show "\<exists>r. network E (length (fetches (trace st))) (token_request E) = Inr r
               \<and> ok r \<and> body_json r = Some tok"
    by (simp split: if_splits)
qed

theorem expires_in_reported_witness:
  "(\<exists>a n. fst (getAppAccessToken (example_env (token_only 1800))
          \<lparr>cachedToken = Some \<lparr>access_token = JStr ''abc'', expiresAt = Some 61500\<rparr>,
           trace = [], ticks = 0\<rparr>)
     = Inr (JObj [(''access_token'', a), (''expires_in'', JNum n)]) \<and> 60 \<le> n)
   \<and> (\<exists>r. network (example_env (token_only 1800)) 0 (token_request (example_env (token_only 1800)))
              = Inr r \<and> ok r \<and> body_json r = Some (token_json 1800))"
  using expires_in_reported[of "example_env (token_only 1800)"
          "\<lparr>cachedToken = Some \<lparr>access_token = JStr ''abc'', expiresAt = Some 61500\<rparr>,
           trace = [], ticks = 0\<rparr>"]
        expires_in_reported[of "example_env (token_only 1800)" cold]
        example_fresh[of 1800]
  by (simp add: cache_hit_def example_cold fetches_def) (simp add: example_env_def)

text \<open>
  Against C2 as stated: on a cold cache, the accepted response
  \<^verbatim>\<open>{"access_token": "abc", "expires_in": 30}\<close> is returned with \<^verbatim>\<open>expires_in\<close> 30.
\<close>

theorem expires_in_counterexample:
  "fst (getAppAccessToken (example_env (token_only 30)) cold) = Inr (token_json 30)
   \<and> prop_of (token_json 30) ''expires_in'' = Some (JNum 30)"
  by (simp add: example_fresh) (simp add: token_json_def)

text \<open>
  Claim C4, as the code has it. The test is one of truthiness, not of sign: a negative
  \<^verbatim>\<open>expires_in\<close> is accepted. What holds, for a successful response that decodes to
  \<open>j\<close> when the cached token is not served: \<^verbatim>\<open>getAppAccessToken\<close> fails with the
  error \<^verbatim>\<open>Hydra token missing fields\<close> exactly when \<^verbatim>\<open>access_token\<close> or \<^verbatim>\<open>expires_in\<close>
  is falsy (absent, \<^verbatim>\<open>null\<close>, \<^verbatim>\<open>false\<close>, 0 or the empty string); and a response with a
  non-empty string as access token and a positive number as expiry is returned.
\<close>

theorem token_shape_check:
  assumes "\<not> cache_hit E st"
    and "network E (length (fetches (trace st))) (token_request E) = Inr r"
    and "ok r" and "body_json r = Some j"
  shows "(fst (getAppAccessToken E st) = Inl TokenShapeError
            \<longleftrightarrow> \<not> truthy (prop_of j ''access_token'') \<or> \<not> truthy (prop_of j ''expires_in''))
         \<and> (\<forall>s n. prop_of j ''access_token'' = Some (JStr s) \<and> s \<noteq> []
                   \<and> prop_of j ''expires_in'' = Some (JNum n) \<and> 0 < n
                \<longrightarrow> fst (getAppAccessToken E st) = Inr j)"
proof -
  let ?st = "if cachedToken st = None then st else st\<lparr>ticks := Suc (ticks st)\<rparr>"
  have g: "getAppAccessToken E st = acquire E ?st"
    using assms(1) by (rule getAppAccessToken_miss)
  have n: "network E (length (fetches (trace ?st))) (token_request E) = Inr r"
    using assms(2) by simp
  have "fst (acquire E ?st) = Inl TokenShapeError
          \<longleftrightarrow> \<not> truthy (prop_of j ''access_token'') \<or> \<not> truthy (prop_of j ''expires_in'')"
    using n assms(3,4) by (rule acquire_shape)
  moreover have "fst (acquire E ?st) = Inr j"
    if "prop_of j ''access_token'' = Some (JStr s)" "s \<noteq> []"
       "prop_of j ''expires_in'' = Some (JNum k)" "0 < k" for s k
    using acquire_accepts[OF n assms(3,4), of k] that by simp
  ultimately show ?thesis
    unfolding g by blast
qed

theorem token_shape_check_witness:
  "fst (getAppAccessToken (example_env (token_only 0)) cold) = Inl TokenShapeError
   \<and> fst (getAppAccessToken (example_env (token_only 1800)) cold) = Inr (token_json 1800)"
  using token_shape_check[of "example_env (token_only 0)" cold
          "json_response (token_json 0)" "token_json 0"]
        token_shape_check[of "example_env (token_only 1800)" cold
          "json_response (token_json 1800)" "token_json 1800"]
  by (simp add: example_cold example_network ok_json_response token_json_def)

text \<open>
  Against C4 as stated: the response \<^verbatim>\<open>{"access_token": "abc", "expires_in": -5}\<close>,
  whose expiry is not positive, is accepted and returned.
\<close>

theorem token_shape_counterexample:
  "fst (getAppAccessToken (example_env (token_only (- 5))) cold) = Inr (token_json (- 5))
   \<and> prop_of (token_json (- 5)) ''expires_in'' = Some (JNum (- 5))"
  by (simp add: example_fresh) (simp add: token_json_def)


lemma example_clock: "clock (example_env up) k = 1000 * int k"
  by (simp add: example_env_def)

text \<open>
  Claim C5, as the code has it. When the cache already holds the token, the two calls
  issue no network call at all; one call is issued only when the first of the two calls
  fills the cache. What holds, for four clock reads within 60 seconds of a time \<open>t0\<close>:
  \<^item> from a cache holding a token with \<open>expiresAt = t0 + 3600\<close> seconds, the two calls
    return the cached token with \<^verbatim>\<open>expires_in\<close> re-derived as
    \<open>max 60 (floor ((expiresAt - now) / 1000))\<close>, and leave the trace of calls as it was;
  \<^item> from an empty cache, when the token endpoint answers with a truthy access token and
    \<^verbatim>\<open>expires_in\<close> 3600, the first call returns that response, the second returns the
    cached token with \<^verbatim>\<open>expires_in\<close> re-derived in the same way, and the two calls
    together issue exactly one network call, the token request.
\<close>

theorem token_reuse:
  assumes "\<forall>k<4. t0 \<le> clock E (ticks st + k) \<and> clock E (ticks st + k) \<le> t0 + 60000"
  shows "(cachedToken st = Some \<lparr>access_token = a, expiresAt = Some (t0 + 3600000)\<rparr> \<longrightarrow>
            two_calls E st =
              (Inr (JObj [(''access_token'', a),
                          (''expires_in'',
                           JNum (max 60 ((t0 + 3600000 - clock E (ticks st + 1)) div 1000)))]),
               Inr (JObj [(''access_token'', a),
                          (''expires_in'',
                           JNum (max 60 ((t0 + 3600000 - clock E (ticks st + 3)) div 1000)))]),
               st\<lparr>ticks := ticks st + 4\<rparr>))
         \<and> (cachedToken st = None
              \<and> network E (length (fetches (trace st))) (token_request E) = Inr r
              \<and> ok r \<and> body_json r = Some j
              \<and> truthy (prop_of j ''access_token'')
              \<and> prop_of j ''expires_in'' = Some (JNum 3600) \<longrightarrow>
            (\<exists>st2. two_calls E st =
                      (Inr j,
                       Inr (JObj [(''access_token'', nullish (prop_of j ''access_token'') JNull),
                                  (''expires_in'',
                                   JNum (max 60 ((clock E (ticks st) + 3600000
                                                  - clock E (ticks st + 2)) div 1000)))]),
                       st2)
                    \<and> trace st2 = trace st @ [Fetch (token_request E)]))"
proof (intro conjI impI)
  from assms have w: "t0 \<le> clock E (ticks st + k)" "clock E (ticks st + k) \<le> t0 + 60000"
    if "k < 4" for k
    using that by auto
  {
    assume c: "cachedToken st = Some \<lparr>access_token = a, expiresAt = Some (t0 + 3600000)\<rparr>"
    have h1: "clock E (ticks st) < t0 + 3600000 - 60000"
      using w(2)[of 0] by simp
    have h2: "clock E (Suc (Suc (ticks st))) < t0 + 3600000 - 60000"
      using w(2)[of 2] by simp
    have 1: "getAppAccessToken E st =
               (Inr (JObj [(''access_token'', a),
                           (''expires_in'',
                            JNum (max 60 ((t0 + 3600000 - clock E (Suc (ticks st))) div 1000)))]),
                st\<lparr>ticks := Suc (Suc (ticks st))\<rparr>)"
      using getAppAccessToken_hit[OF c _ h1] by simp
    have 2: "getAppAccessToken E (st\<lparr>ticks := Suc (Suc (ticks st))\<rparr>) =
               (Inr (JObj [(''access_token'', a),
                           (''expires_in'',
                            JNum (max 60 ((t0 + 3600000 - clock E (Suc (Suc (Suc (ticks st))))) div 1000)))]),
                st\<lparr>ticks := Suc (Suc (Suc (Suc (ticks st))))\<rparr>)"
      using getAppAccessToken_hit[of "st\<lparr>ticks := Suc (Suc (ticks st))\<rparr>"
              "\<lparr>access_token = a, expiresAt = Some (t0 + 3600000)\<rparr>" "t0 + 3600000" E] c h2
      by simp
    show "two_calls E st =
              (Inr (JObj [(''access_token'', a),
                          (''expires_in'',
                           JNum (max 60 ((t0 + 3600000 - clock E (ticks st + 1)) div 1000)))]),
               Inr (JObj [(''access_token'', a),
                          (''expires_in'',
                           JNum (max 60 ((t0 + 3600000 - clock E (ticks st + 3)) div 1000)))]),
               st\<lparr>ticks := ticks st + 4\<rparr>)"
      by (simp add: two_calls_def 1 2 eval_nat_numeral)
  }
  {
    assume a: "cachedToken st = None
              \<and> network E (length (fetches (trace st))) (token_request E) = Inr r
              \<and> ok r \<and> body_json r = Some j
              \<and> truthy (prop_of j ''access_token'')
              \<and> prop_of j ''expires_in'' = Some (JNum 3600)"
    let ?c = "\<lparr>access_token = nullish (prop_of j ''access_token'') JNull,
               expiresAt = Some (clock E (ticks st) + 3600 * 1000)\<rparr>"
    let ?st1 = "st\<lparr>trace := trace st @ [Fetch (token_request E)], ticks := Suc (ticks st),
                   cachedToken := Some ?c\<rparr>"
    have miss: "\<not> cache_hit E st"
      using a by (simp add: cache_hit_def)
    have 1: "getAppAccessToken E st = (Inr j, ?st1)"
      using a acquire_accepts[of E st r j 3600]
      by (simp add: getAppAccessToken_miss[OF miss])
    have h: "clock E (ticks ?st1) < clock E (ticks st) + 3600 * 1000 - 60000"
      using w(2)[of 1] w(1)[of 0] by simp
    have 2: "getAppAccessToken E ?st1 =
               (Inr (JObj [(''access_token'', nullish (prop_of j ''access_token'') JNull),
                           (''expires_in'',
                            JNum (max 60 ((clock E (ticks st) + 3600 * 1000
                                           - clock E (Suc (ticks ?st1))) div 1000)))]),
                ?st1\<lparr>ticks := Suc (Suc (ticks ?st1))\<rparr>)"
      using getAppAccessToken_hit[of ?st1 ?c "clock E (ticks st) + 3600 * 1000" E] h
      by simp
    show "\<exists>st2. two_calls E st =
                      (Inr j,
                       Inr (JObj [(''access_token'', nullish (prop_of j ''access_token'') JNull),
                                  (''expires_in'',
                                   JNum (max 60 ((clock E (ticks st) + 3600000
                                                  - clock E (ticks st + 2)) div 1000)))]),
                       st2)
                    \<and> trace st2 = trace st @ [Fetch (token_request E)]"
      unfolding two_calls_def 1 using 2 by simp
  }
qed

theorem token_reuse_witness:
  "two_calls (example_env (token_only 3600)) warm =
     (Inr (JObj [(''access_token'', JStr ''abc''), (''expires_in'', JNum 3599)]),
      Inr (JObj [(''access_token'', JStr ''abc''), (''expires_in'', JNum 3597)]),
      warm\<lparr>ticks := 4\<rparr>)
   \<and> (\<exists>st2. two_calls (example_env (token_only 3600)) cold =
               (Inr (token_json 3600),
                Inr (JObj [(''access_token'', JStr ''abc''), (''expires_in'', JNum 3598)]),
                st2)
             \<and> trace st2 = [Fetch (token_request (example_env (token_only 3600)))])"
  using token_reuse[of 0 "example_env (token_only 3600)" warm "JStr ''abc''"]
        token_reuse[of 0 "example_env (token_only 3600)" cold _
          "json_response (token_json 3600)" "token_json 3600"]
  by (simp add: example_clock example_cold example_network ok_json_response)
     (simp add: warm_def token_json_def)

text \<open>
  Against C5 as stated: with the cache holding a token that expires 3600 seconds after
  the first clock read, two calls three seconds apart issue no network call, not one.
\<close>

theorem token_reuse_counterexample:
  "expiresAt (the (cachedToken warm)) = Some (clock (example_env (token_only 3600)) 0 + 3600000)
   \<and> fetches (trace (snd (snd (two_calls (example_env (token_only 3600)) warm)))) = []"
  by (simp add: two_calls_def getAppAccessToken_def Date_now_def example_clock warm_def fetches_def)

text \<open>
  Claim C6. When the cached token is not served, \<^verbatim>\<open>getAppAccessToken\<close> issues exactly
  one call, the token request. With an empty client secret the form of that request
  holds \<^verbatim>\<open>client_id\<close> and \<^verbatim>\<open>client_secret\<close> and there is no \<^verbatim>\<open>Authorization\<close> header;
  with a client id and a client secret the header is \<^verbatim>\<open>Basic\<close> followed by the base64
  of \<^verbatim>\<open>id:secret\<close>, and the form holds neither field.
\<close>

theorem credential_transport:
  "(\<not> cache_hit E st \<longrightarrow>
      trace (snd (getAppAccessToken E st)) = trace st @ [Fetch (token_request E)])
   \<and> (MSF_CLIENT_SECRET E = [] \<longrightarrow>
        (\<exists>form. body (token_request E) = Some form
                \<and> map_of form ''client_id'' = Some (MSF_CLIENT_ID E)
                \<and> map_of form ''client_secret'' = Some [])
        \<and> map_of (headers (token_request E)) ''Authorization'' = None)
   \<and> (MSF_CLIENT_ID E \<noteq> [] \<and> MSF_CLIENT_SECRET E \<noteq> [] \<longrightarrow>
        map_of (headers (token_request E)) ''Authorization''
          = Some (''Basic '' @ base64 (lib E) (MSF_CLIENT_ID E @ '':'' @ MSF_CLIENT_SECRET E))
        \<and> (\<exists>form. body (token_request E) = Some form
                \<and> map_of form ''client_id'' = None
                \<and> map_of form ''client_secret'' = None))"
proof (intro conjI impI)
  assume "\<not> cache_hit E st"
  then show "trace (snd (getAppAccessToken E st)) = trace st @ [Fetch (token_request E)]"
    by (simp add: getAppAccessToken_miss acquire_trace)
qed (simp_all add: token_request_def useBasic_def)

theorem credential_transport_witness:
  "trace (snd (getAppAccessToken (example_env (token_only 1800)) cold))
     = [Fetch (token_request (example_env (token_only 1800)))]
   \<and> map_of (headers (token_request (example_env (token_only 1800)))) ''Authorization''
       = Some ''Basic Y2xpZW50OnNlY3JldA==''
   \<and> map_of (the (body (token_request (example_env (token_only 1800))))) ''client_secret'' = None
   \<and> map_of (headers (token_request (no_secret (example_env (token_only 1800))))) ''Authorization''
       = None
   \<and> map_of (the (body (token_request (no_secret (example_env (token_only 1800)))))) ''client_id''
       = Some ''client''
   \<and> map_of (the (body (token_request (no_secret (example_env (token_only 1800)))))) ''client_secret''
       = Some []"
  using credential_transport[of "example_env (token_only 1800)" cold]
        credential_transport[of "no_secret (example_env (token_only 1800))" cold]
  by (auto simp: example_cold no_secret_def example_env_def node_lib_def b64_char_def)


subsection \<open>Fetching pages\<close>

declare chars_loop.simps [simp del]

lemma fetchJSON_trace:
  "trace (snd (fetchJSON E path hs st)) = trace st @ [Fetch (api_request E hs path)]"
  by (simp add: fetchJSON_def do_fetch_def api_request_def split: sum.splits option.splits)

lemma fetchJSON_ok:
  assumes "network E (length (fetches (trace st))) (api_request E hs path) = Inr r"
    and "ok r" and "body_json r = Some j"
  shows "fetchJSON E path hs st = (Inr j, st\<lparr>trace := trace st @ [Fetch (api_request E hs path)]\<rparr>)"
  using assms by (simp add: fetchJSON_def do_fetch_def api_request_def)

lemma page_step_trace:
  "trace (snd (page_step E hs page allChars st)) = trace st @ [Fetch (page_request E hs page)]"
proof -
  have "trace (snd (page_step E hs page allChars st))
          = trace (snd (fetchJSON E (characters_path (lib E) page) hs st))"
    by (simp add: page_step_def split: prod.splits sum.splits)
  then show ?thesis
    by (simp add: fetchJSON_trace page_request_def)
qed

lemma page_step_ok:
  assumes "network E (length (fetches (trace st))) (page_request E hs page) = Inr r"
    and "ok r" and "body_json r = Some resp"
    and "page_items resp = Inr items"
    and "emap (normalize (lib E)) items = Inr normalized"
  shows "page_step E hs page allChars st =
           (Inr (length items, allChars @ normalized,
                 Total (nullish (declared resp)
                          (JNum (int (if length items < perPage then length (allChars @ normalized)
                                      else length (allChars @ normalized) + perPage))))),
            st\<lparr>trace := trace st @ [Fetch (page_request E hs page)]\<rparr>)"
  using assms
  by (simp add: page_step_def page_request_def fetchJSON_ok declared_def Let_def)

lemma chars_loop_fetches:
  assumes "page \<le> 200"
  shows "\<exists>n. page + n \<le> 201
             \<and> trace (snd (chars_loop E hs page allChars perTotal st))
                 = trace st @ map (\<lambda>p. Fetch (page_request E hs p)) [page..<page + n]"
  using assms
proof (induction E hs page allChars perTotal st rule: chars_loop.induct)
  case (1 E hs page allChars perTotal st)
  let ?goal = "\<lambda>n. page + n \<le> 201
             \<and> trace (snd (chars_loop E hs page allChars perTotal st))
                 = trace st @ map (\<lambda>p. Fetch (page_request E hs p)) [page..<page + n]"
  note unfold = chars_loop.simps[of E hs page allChars perTotal st]
  show ?case
  proof (cases "below_total (lib E) (length allChars) perTotal = Inr True")
    case False
    then have "snd (chars_loop E hs page allChars perTotal st) = st"
      by (simp add: unfold split: sum.splits bool.splits)
    with "1.prems" have "?goal 0" by simp
    then show ?thesis ..
  next
    case continue: True
    obtain res st1 where step: "page_step E hs page allChars st = (res, st1)"
      by (cases "page_step E hs page allChars st")
    have tr1: "trace st1 = trace st @ [Fetch (page_request E hs page)]"
      using page_step_trace[of E hs page allChars st] step by simp
    show ?thesis
    proof (cases "\<exists>k allChars' perTotal'. res = Inr (k, allChars', perTotal')
                    \<and> \<not> k < perPage \<and> \<not> page + 1 > 200")
      case False
      then have "snd (chars_loop E hs page allChars perTotal st) = st1"
        by (auto simp: unfold continue step split: sum.splits)
      with tr1 "1.prems" have "?goal 1" by simp
      then show ?thesis ..
    next
      case True
      then obtain k allChars' perTotal' where
        res: "res = Inr (k, allChars', perTotal')" and full: "\<not> k < perPage"
        and more: "\<not> page + 1 > 200"
        by blast
      from more have "page + 1 \<le> 200" by simp
      from "1.IH"[OF continue refl step[unfolded res, symmetric] refl refl refl full more this]
      obtain n where n: "page + 1 + n \<le> 201"
        and tr: "trace (snd (chars_loop E hs (page + 1) allChars' perTotal' st1))
                   = trace st1 @ map (\<lambda>p. Fetch (page_request E hs p)) [page + 1..<page + 1 + n]"
        by blast
      have "chars_loop E hs page allChars perTotal st
              = chars_loop E hs (page + 1) allChars' perTotal' st1"
        using full more by (simp add: unfold continue step res)
      with tr tr1 n have "?goal (Suc n)"
        by (simp add: upt_rec[of page])
      then show ?thesis ..
    qed
  qed
qed

text \<open>
  Claim C8. Whatever the upstream answers, the character loop returns (it is a total
  function), and the calls it has issued when it returns are the fetches of the pages
  1 to \<open>n\<close>, in this order, for some \<open>n\<close> that is at most 200: no page above 200 is
  ever fetched.
\<close>

theorem pagination_capped:
  "\<exists>n\<le>200. trace (snd (chars_loop E hs 1 [] Infinity st))
              = trace st @ map (\<lambda>p. Fetch (page_request E hs p)) [1..<1 + n]"
proof -
  from chars_loop_fetches[of 1 E hs "[]" Infinity st]
  obtain n where "1 + n \<le> 201"
    and "trace (snd (chars_loop E hs 1 [] Infinity st))
           = trace st @ map (\<lambda>p. Fetch (page_request E hs p)) [1..<1 + n]"
    by auto
  then show ?thesis
    by (intro exI[of _ n]) simp
qed


subsection \<open>The loop on well-behaved pages\<close>

lemma emap_append:
  "emap f xs = Inr a \<Longrightarrow> emap f ys = Inr b \<Longrightarrow> emap f (xs @ ys) = Inr (a @ b)"
  by (induction xs arbitrary: a) (auto simp: ebind_Inr_iff)

lemma normalizable_emap:
  assumes "normalizable items"
  shows "\<exists>normalized. emap (normalize B) items = Inr normalized"
proof -
  from assms have "list_all (\<lambda>c. \<exists>out. normalize B c = Inr out) items"
    unfolding normalizable_def list_all_iff using normalize_succeeds by blast
  then show ?thesis
    by (simp add: emap_succeeds)
qed

lemma below_total_open:
  assumes "open_ended resp n"
  shows "below_total B n (Total (nullish (declared resp) (JNum (int (n + perPage))))) = Inr True"
proof (cases "declared resp")
  case None
  then show ?thesis by (simp add: perPage_def)
next
  case (Some v)
  with assms show ?thesis
    by (cases v) (simp_all add: open_ended_def perPage_def)
qed

lemma answers_network:
  "answers E n q j \<Longrightarrow> \<exists>r. network E n q = Inr r \<and> ok r \<and> body_json r = Some j"
  by (simp add: answers_def split: sum.splits)

lemma page_step_answers:
  assumes "answers E (length (fetches (trace st))) (page_request E hs page) resp"
    and "page_items resp = Inr items"
    and "emap (normalize (lib E)) items = Inr normalized"
  shows "page_step E hs page allChars st =
           (Inr (length items, allChars @ normalized,
                 Total (nullish (declared resp)
                          (JNum (int (if length items < perPage then length (allChars @ normalized)
                                      else length (allChars @ normalized) + perPage))))),
            st\<lparr>trace := trace st @ [Fetch (page_request E hs page)]\<rparr>)"
proof -
  from answers_network[OF assms(1)] obtain r where
    "network E (length (fetches (trace st))) (page_request E hs page) = Inr r"
    "ok r" "body_json r = Some resp"
    by blast
  then show ?thesis
    using assms(2,3) by (rule page_step_ok)
qed

lemma chars_loop_short:
  assumes "below_total (lib E) (length allChars) perTotal = Inr True"
    and "page_step E hs page allChars st = (Inr (k, allChars', perTotal'), st1)"
    and "k < perPage"
  shows "chars_loop E hs page allChars perTotal st = (Inr (allChars', page), st1)"
  using assms by (simp add: chars_loop.simps[of E hs page allChars perTotal st])

lemma chars_loop_full:
  assumes "below_total (lib E) (length allChars) perTotal = Inr True"
    and "page_step E hs page allChars st = (Inr (k, allChars', perTotal'), st1)"
    and "\<not> k < perPage" and "page < 200"
  shows "chars_loop E hs page allChars perTotal st
           = chars_loop E hs (page + 1) allChars' perTotal' st1"
  using assms by (simp add: chars_loop.simps[of E hs page allChars perTotal st])

lemma fetches_simps [simp]:
  "fetches [] = []"
  "fetches (Fetch q # tr) = Fetch q # fetches tr"
  "fetches (tr @ tr') = fetches tr @ fetches tr'"
  by (simp_all add: fetches_def)

text \<open>
  Claim C7. Let the upstream answer the fetches of pages 1, 2 and 3 with pages of 200,
  200 and 47 items, where the items are records that the normalizer accepts and the
  first two pages declare no total (or a number above the count accumulated so far).
  Then the loop returns after the third page with \<^verbatim>\<open>page\<close> equal to 3, its result is
  the 447 normalized items in fetch order, and the calls it has issued are the three
  page fetches, in order.
\<close>

theorem three_pages:
  assumes "answers E (length (fetches (trace st))) (page_request E hs 1) resp1"
    and "answers E (length (fetches (trace st)) + 1) (page_request E hs 2) resp2"
    and "answers E (length (fetches (trace st)) + 2) (page_request E hs 3) resp3"
    and "page_items resp1 = Inr items1" and "length items1 = 200" and "normalizable items1"
    and "page_items resp2 = Inr items2" and "length items2 = 200" and "normalizable items2"
    and "page_items resp3 = Inr items3" and "length items3 = 47" and "normalizable items3"
    and "open_ended resp1 200" and "open_ended resp2 400"
  shows "\<exists>allChars st'.
           chars_loop E hs 1 [] Infinity st = (Inr (allChars, 3), st')
           \<and> emap (normalize (lib E)) (items1 @ items2 @ items3) = Inr allChars
           \<and> length allChars = 447
           \<and> trace st' = trace st @ [Fetch (page_request E hs 1), Fetch (page_request E hs 2),
                                     Fetch (page_request E hs 3)]"
proof -
  from normalizable_emap[OF assms(6)] obtain n1 where n1: "emap (normalize (lib E)) items1 = Inr n1"
    by blast
  from normalizable_emap[OF assms(9)] obtain n2 where n2: "emap (normalize (lib E)) items2 = Inr n2"
    by blast
  from normalizable_emap[OF assms(12)] obtain n3 where n3: "emap (normalize (lib E)) items3 = Inr n3"
    by blast
  have l1: "length n1 = 200" and l2: "length n2 = 200" and l3: "length n3 = 47"
    using emap_length[OF n1] emap_length[OF n2] emap_length[OF n3] assms(5,8,11) by simp_all
  let ?st1 = "st\<lparr>trace := trace st @ [Fetch (page_request E hs 1)]\<rparr>"
  let ?st2 = "?st1\<lparr>trace := trace ?st1 @ [Fetch (page_request E hs 2)]\<rparr>"
  let ?st3 = "?st2\<lparr>trace := trace ?st2 @ [Fetch (page_request E hs 3)]\<rparr>"
  let ?t1 = "Total (nullish (declared resp1) (JNum (int (200 + perPage))))"
  let ?t2 = "Total (nullish (declared resp2) (JNum (int (400 + perPage))))"
  let ?t3 = "Total (nullish (declared resp3) (JNum 447))"
  have s1: "page_step E hs 1 [] st = (Inr (200, n1, ?t1), ?st1)"
    using page_step_answers[OF assms(1,4) n1, of "[]"] assms(5) l1 by (simp add: perPage_def)
  have s2: "page_step E hs 2 n1 ?st1 = (Inr (200, n1 @ n2, ?t2), ?st2)"
    using page_step_answers[of E ?st1 hs 2 resp2 items2 n2 n1] assms(2,7,8) n2 l1 l2
    by (simp add: perPage_def)
  have s3: "page_step E hs 3 (n1 @ n2) ?st2 = (Inr (47, n1 @ n2 @ n3, ?t3), ?st3)"
    using page_step_answers[of E ?st2 hs 3 resp3 items3 n3 "n1 @ n2"] assms(3,10,11) n3 l1 l2 l3
    by (simp add: perPage_def)
  have b1: "below_total (lib E) (length n1) ?t1 = Inr True"
    using below_total_open[OF assms(13)] l1 by simp
  have b2: "below_total (lib E) (length (n1 @ n2)) ?t2 = Inr True"
    using below_total_open[OF assms(14)] l1 l2 by simp
  have full: "\<not> (200::nat) < perPage" and short: "(47::nat) < perPage"
    by (simp_all add: perPage_def)
  have two: "(1::nat) + 1 = 2" and three: "(2::nat) + 1 = 3"
    by simp_all
  have b0: "below_total (lib E) (length ([]::json list)) Infinity = Inr True"
    by simp
  have "chars_loop E hs 1 [] Infinity st = chars_loop E hs 2 n1 ?t1 ?st1"
    using chars_loop_full[OF b0 s1 full] unfolding two by simp
  also have "\<dots> = chars_loop E hs 3 (n1 @ n2) ?t2 ?st2"
    using chars_loop_full[OF b1 s2 full] unfolding three by simp
  also have "\<dots> = (Inr (n1 @ n2 @ n3, 3), ?st3)"
    using b2 s3 short by (rule chars_loop_short)
  finally have "chars_loop E hs 1 [] Infinity st = (Inr (n1 @ n2 @ n3, 3), ?st3)" .
  moreover have "emap (normalize (lib E)) (items1 @ items2 @ items3) = Inr (n1 @ n2 @ n3)"
    by (intro emap_append n1 n2 n3)
  moreover have "length (n1 @ n2 @ n3) = 447"
    by (simp add: l1 l2 l3)
  ultimately show ?thesis
    by (intro exI[of _ "n1 @ n2 @ n3"] exI[of _ ?st3]) simp
qed


subsection \<open>The example game API\<close>

declare digits.simps [simp del]

lemma show_int_examples:
  "show_int 200 = ''200''" "show_int 1 = ''1''" "show_int 2 = ''2''" "show_int 3 = ''3''"
  by code_simp+

lemma example_page_url:
  "p \<in> {1, 2, 3} \<Longrightarrow>
   url (page_request (example_env up) hs p)
     = ''https://api.example/game/v1/characters?lang=none&traitFormat=id&perPage=200&page=''
       @ show_int (int p)"
  by (auto simp: page_request_def api_request_def characters_path_def example_env_def
        node_lib_def strip_trailing_slash_def perPage_def show_int_examples)

lemma example_network_url: "network (example_env up) k q = up (url q)"
  by (simp add: example_env_def)

lemma example_page:
  assumes "p \<in> {1, 2, 3}"
  shows "answers (example_env (game_api sz)) k (page_request (example_env (game_api sz)) hs p)
           (JArr (replicate (sz p) hero))"
proof -
  have "game_api sz (url (page_request (example_env (game_api sz)) hs p))
          = Inr (json_response (JArr (replicate (sz p) hero)))"
    using assms
    by (auto simp: example_page_url show_int_examples game_api_def page_of_def read_nat_def
          is_digit_def)
  then show ?thesis
    by (simp add: answers_def example_network_url ok_json_response)
qed

lemma normalizable_hero: "normalizable (replicate n hero)"
  by (simp add: normalizable_def list_all_iff hero_def convertible_def printable_opt_def)

lemma open_ended_array: "open_ended (JArr xs) n"
  by (simp add: open_ended_def declared_def)

theorem three_pages_witness:
  "\<exists>allChars st'.
     chars_loop (example_env (game_api three_sizes)) [] 1 [] Infinity cold = (Inr (allChars, 3), st')
     \<and> emap (normalize node_lib) (replicate 200 hero @ replicate 200 hero @ replicate 47 hero)
         = Inr allChars
     \<and> length allChars = 447
     \<and> trace st' = [Fetch (page_request (example_env (game_api three_sizes)) [] 1),
                    Fetch (page_request (example_env (game_api three_sizes)) [] 2),
                    Fetch (page_request (example_env (game_api three_sizes)) [] 3)]"
proof -
  let ?E = "example_env (game_api three_sizes)"
  have lib: "lib ?E = node_lib"
    by (simp add: example_env_def)
  have a1: "answers ?E (length (fetches (trace cold))) (page_request ?E [] 1) (JArr (replicate 200 hero))"
    using example_page[of 1 three_sizes "length (fetches (trace cold))" "[]"]
    by (simp add: three_sizes_def)
  have a2: "answers ?E (length (fetches (trace cold)) + 1) (page_request ?E [] 2)
              (JArr (replicate 200 hero))"
    using example_page[of 2 three_sizes "length (fetches (trace cold)) + 1" "[]"]
    by (simp add: three_sizes_def)
  have a3: "answers ?E (length (fetches (trace cold)) + 2) (page_request ?E [] 3)
              (JArr (replicate 47 hero))"
    using example_page[of 3 three_sizes "length (fetches (trace cold)) + 2" "[]"]
    by (simp add: three_sizes_def)
  have items: "page_items (JArr xs) = Inr xs" for xs
    by (simp add: page_items_def)
  from three_pages[OF a1 a2 a3 items _ normalizable_hero items _ normalizable_hero
      items _ normalizable_hero open_ended_array open_ended_array]
  show ?thesis
    by (simp add: lib example_cold)
qed

theorem pagination_capped_witness:
  "\<exists>n\<le>200. trace (snd (chars_loop (example_env (game_api three_sizes)) [] 1 [] Infinity cold))
              = map (\<lambda>p. Fetch (page_request (example_env (game_api three_sizes)) [] p)) [1..<1 + n]"
  using pagination_capped[of "example_env (game_api three_sizes)" "[]" cold]
  by (simp add: example_cold)


subsection \<open>The whole run\<close>

lemma sync_headers_string:
  assumes "prop_of tok ''access_token'' = Some (JStr s)"
  shows "sync_headers E tok = Inr (bearer_headers E s)"
proof -
  from assms have "tok \<noteq> JNull" by auto
  with assms show ?thesis
    by (simp add: sync_headers_def get_prop_def bearer_headers_def)
qed

lemma persist_ok:
  assumes "save_error E ''datasets/traits.json'' = None"
    and "save_error E ''datasets/characters.json'' = None"
    and "set_error E = None"
    and "traitsCount (lib E) traits = Inr tc"
  shows "persist E traits allChars page st =
           (Inr (json_reply 200
                   (JObj [(''ok'', JBool True),
                          (''written'', JObj [(''traits'', JStr ''datasets/traits.json''),
                                              (''characters'', JStr ''datasets/characters.json'')]),
                          (''counts'', counts_json tc (length allChars))])),
            st\<lparr>trace := trace st @
                   [Save ''datasets/traits.json'' traits ''application/json'',
                    Save ''datasets/characters.json''
                      (JObj [(''items'', JArr allChars),
                             (''meta'', JObj [(''perTotal'', JNum (int (length allChars))),
                                              (''perPage'', JNum (int perPage)),
                                              (''page'', JNum (int page))])])
                      ''application/json'',
                    SetDoc ''meta'' ''datasets''
                      (JObj [(''updatedAt'', JNum (clock E (ticks st))),
                             (''counts'', counts_json tc (length allChars))]) True],
                 ticks := Suc (ticks st)\<rparr>)"
  using assms by (simp add: persist_def save_def set_meta_def Date_now_def)

lemma writes_simps [simp]:
  "writes [] = []"
  "writes (Fetch q # tr) = writes tr"
  "writes (Save p v c # tr) = Save p v c # writes tr"
  "writes (SetDoc a b d m # tr) = SetDoc a b d m # writes tr"
  "writes (tr @ tr') = writes tr @ writes tr'"
  by (simp_all add: writes_def)

text \<open>
  Claim C9. In a process with an empty cache, let the token endpoint answer
  \<^verbatim>\<open>{"access_token": "abc", "expires_in": 1800}\<close>, the traits endpoint
  \<^verbatim>\<open>[{"id": "t1", "name": "Fast"}]\<close>, and the first page of characters five raw items
  that the normalizer accepts, and let the writes succeed. Then \<^verbatim>\<open>syncGameRef\<close>
  replies 200 with the counts \<^verbatim>\<open>{traits: 1, characters: 5}\<close>, and its writes are, in this
  order, the artifact \<^verbatim>\<open>datasets/traits.json\<close>, the artifact
  \<^verbatim>\<open>datasets/characters.json\<close> with the five normalized items, and one metadata
  document written with \<^verbatim>\<open>merge: true\<close>.
\<close>

theorem end_to_end:
  assumes "cachedToken st = None"
    and "answers E (length (fetches (trace st))) (token_request E) (token_json 1800)"
    and "answers E (length (fetches (trace st)) + 1)
           (api_request E (bearer_headers E ''abc'') ''game/v1/traits?lang=none'') fast"
    and "answers E (length (fetches (trace st)) + 2)
           (page_request E (bearer_headers E ''abc'') 1) resp"
    and "page_items resp = Inr items" and "length items = 5" and "normalizable items"
    and "save_error E ''datasets/traits.json'' = None"
    and "save_error E ''datasets/characters.json'' = None"
    and "set_error E = None"
  shows "\<exists>normalized st'.
           syncGameRef E st =
             (json_reply 200
                (JObj [(''ok'', JBool True),
                       (''written'', JObj [(''traits'', JStr ''datasets/traits.json''),
                                           (''characters'', JStr ''datasets/characters.json'')]),
                       (''counts'', JObj [(''traits'', JNum 1), (''characters'', JNum 5)])]),
              st')
           \<and> emap (normalize (lib E)) items = Inr normalized
           \<and> writes (trace st') = writes (trace st) @
                [Save ''datasets/traits.json'' fast ''application/json'',
                 Save ''datasets/characters.json''
                   (JObj [(''items'', JArr normalized),
                          (''meta'', JObj [(''perTotal'', JNum 5), (''perPage'', JNum 200),
                                           (''page'', JNum 1)])])
                   ''application/json'',
                 SetDoc ''meta'' ''datasets''
                   (JObj [(''updatedAt'', JNum (clock E (ticks st + 1))),
                          (''counts'', JObj [(''traits'', JNum 1), (''characters'', JNum 5)])])
                   True]"
proof -
  let ?hs = "bearer_headers E ''abc''"
  let ?tq = "Fetch (token_request E)"
  let ?c = "\<lparr>access_token = nullish (prop_of (token_json 1800) ''access_token'') JNull,
             expiresAt = Some (clock E (ticks st) + 1800 * 1000)\<rparr>"
  let ?st1 = "st\<lparr>trace := trace st @ [?tq], ticks := Suc (ticks st), cachedToken := Some ?c\<rparr>"
  let ?st2 = "?st1\<lparr>trace := trace ?st1 @ [Fetch (api_request E ?hs ''game/v1/traits?lang=none'')]\<rparr>"
  let ?st3 = "?st2\<lparr>trace := trace ?st2 @ [Fetch (page_request E ?hs 1)]\<rparr>"
  from normalizable_emap[OF assms(7)] obtain normalized where
    n: "emap (normalize (lib E)) items = Inr normalized"
    by blast
  have len: "length normalized = 5"
    using emap_length[OF n] assms(6) by simp
  from answers_network[OF assms(2)] obtain r where
    r: "network E (length (fetches (trace st))) (token_request E) = Inr r" "ok r"
       "body_json r = Some (token_json 1800)"
    by blast
  have miss: "\<not> cache_hit E st"
    using assms(1) by (simp add: cache_hit_def)
  have tok: "getAppAccessToken E st = (Inr (token_json 1800), ?st1)"
    using acquire_accepts[OF r, of 1800] assms(1)
    by (simp add: getAppAccessToken_miss[OF miss] token_json_def)
  have hs: "sync_headers E (token_json 1800) = Inr ?hs"
    by (rule sync_headers_string) (simp add: token_json_def)
  from answers_network[OF assms(3)] obtain r2 where
    "network E (length (fetches (trace ?st1)))
       (api_request E ?hs ''game/v1/traits?lang=none'') = Inr r2"
    "ok r2" "body_json r2 = Some fast"
    by auto
  then have traits: "fetchJSON E ''game/v1/traits?lang=none'' ?hs ?st1 = (Inr fast, ?st2)"
    by (rule fetchJSON_ok)
  have "answers E (length (fetches (trace ?st2))) (page_request E ?hs 1) resp"
    using assms(4) by simp
  from page_step_answers[OF this assms(5) n, of "[]"]
  have step: "page_step E ?hs 1 [] ?st2
                = (Inr (5, normalized, Total (nullish (declared resp) (JNum 5))), ?st3)"
    using assms(6) len by (simp add: perPage_def)
  have b0: "below_total (lib E) (length ([]::json list)) Infinity = Inr True"
    by simp
  have short: "(5::nat) < perPage"
    by (simp add: perPage_def)
  have loop: "chars_loop E ?hs 1 [] Infinity ?st2 = (Inr (normalized, 1), ?st3)"
    using b0 step short by (rule chars_loop_short)
  have fetched: "fetch_all E st = (Inr (fast, normalized, 1), ?st3)"
    by (simp only: fetch_all_def tok hs traits loop prod.case sum.case)
  have tc: "traitsCount (lib E) fast = Inr (JNum 1)"
    by (simp add: traitsCount_def fast_def)
  note p = persist_ok[OF assms(8,9,10) tc, of normalized 1 ?st3]
  have reply: "fst (syncGameRef E st) =
                 json_reply 200
                   (JObj [(''ok'', JBool True),
                          (''written'', JObj [(''traits'', JStr ''datasets/traits.json''),
                                              (''characters'', JStr ''datasets/characters.json'')]),
                          (''counts'', counts_json (JNum 1) (length normalized))])"
    by (simp only: syncGameRef_def fetched p prod.case sum.case fst_conv)
  have state: "trace (snd (syncGameRef E st)) = trace ?st3 @
                   [Save ''datasets/traits.json'' fast ''application/json'',
                    Save ''datasets/characters.json''
                      (JObj [(''items'', JArr normalized),
                             (''meta'', JObj [(''perTotal'', JNum (int (length normalized))),
                                              (''perPage'', JNum (int perPage)),
                                              (''page'', JNum (int 1))])])
                      ''application/json'',
                    SetDoc ''meta'' ''datasets''
                      (JObj [(''updatedAt'', JNum (clock E (ticks ?st3))),
                             (''counts'', counts_json (JNum 1) (length normalized))]) True]"
    by (simp only: syncGameRef_def fetched p prod.case sum.case snd_conv) simp
  show ?thesis
    by (intro exI[of _ normalized] exI[of _ "snd (syncGameRef E st)"])
       (simp add: prod_eq_iff reply state n len counts_json_def perPage_def)
qed


lemma example_game_token:
  "answers (example_env (game_api sz)) k (token_request (example_env (game_api sz)))
     (token_json 1800)"
  by (simp add: answers_def example_network_url example_token_request game_api_def
        ok_json_response)

lemma example_game_traits:
  "answers (example_env (game_api sz)) k
     (api_request (example_env (game_api sz)) hs ''game/v1/traits?lang=none'') fast"
proof -
  have "url (api_request (example_env (game_api sz)) hs ''game/v1/traits?lang=none'')
          = ''https://api.example/game/v1/traits?lang=none''"
    by (simp add: api_request_def example_env_def strip_trailing_slash_def)
  then show ?thesis
    by (simp add: answers_def example_network_url game_api_def ok_json_response)
qed

lemma example_writes:
  "save_error (example_env up) p = None" "set_error (example_env up) = None"
  by (simp_all add: example_env_def)

theorem end_to_end_witness:
  "\<exists>normalized st'.
     syncGameRef (example_env (game_api (\<lambda>p. 5))) cold =
       (json_reply 200
          (JObj [(''ok'', JBool True),
                 (''written'', JObj [(''traits'', JStr ''datasets/traits.json''),
                                     (''characters'', JStr ''datasets/characters.json'')]),
                 (''counts'', JObj [(''traits'', JNum 1), (''characters'', JNum 5)])]),
        st')
     \<and> emap (normalize node_lib) (replicate 5 hero) = Inr normalized
     \<and> writes (trace st') =
          [Save ''datasets/traits.json'' fast ''application/json'',
           Save ''datasets/characters.json''
             (JObj [(''items'', JArr normalized),
                    (''meta'', JObj [(''perTotal'', JNum 5), (''perPage'', JNum 200),
                                     (''page'', JNum 1)])])
             ''application/json'',
           SetDoc ''meta'' ''datasets''
             (JObj [(''updatedAt'', JNum 1000),
                    (''counts'', JObj [(''traits'', JNum 1), (''characters'', JNum 5)])])
             True]"
proof -
  let ?E = "example_env (game_api (\<lambda>p. 5))"
  have lib: "lib ?E = node_lib"
    by (simp add: example_env_def)
  have a3: "answers ?E (length (fetches (trace cold)) + 2)
              (page_request ?E (bearer_headers ?E ''abc'') 1) (JArr (replicate 5 hero))"
    using example_page[of 1 "\<lambda>p. 5" "length (fetches (trace cold)) + 2"
            "bearer_headers ?E ''abc''"]
    by simp
  have items: "page_items (JArr (replicate 5 hero)) = Inr (replicate 5 hero)"
    by (simp add: page_items_def)
  from end_to_end[OF example_cold(2) example_game_token example_game_traits a3 items _
      normalizable_hero example_writes(1) example_writes(1) example_writes(2)]
  show ?thesis
    by (simp add: lib example_cold example_clock)
qed

subsection \<open>Writes come last\<close>

lemma getAppAccessToken_fetches:
  "\<exists>fs. trace (snd (getAppAccessToken E st)) = trace st @ fs \<and> list_all is_fetch fs"
proof (cases "cache_hit E st")
  case True
  then obtain c e where "cachedToken st = Some c" "expiresAt c = Some e"
    "clock E (ticks st) < e - 60000"
    by (auto simp: cache_hit_def split: option.splits)
  then have "trace (snd (getAppAccessToken E st)) = trace st @ []"
    by (simp add: getAppAccessToken_hit)
  then show ?thesis
    by (intro exI[of _ "[]"]) simp
next
  case False
  then have "trace (snd (getAppAccessToken E st)) = trace st @ [Fetch (token_request E)]"
    by (simp add: getAppAccessToken_miss acquire_trace)
  then show ?thesis
    by (intro exI[of _ "[Fetch (token_request E)]"]) simp
qed

lemma chars_loop_only_fetches:
  "\<exists>fs. trace (snd (chars_loop E hs 1 allChars perTotal st)) = trace st @ fs
        \<and> list_all is_fetch fs"
proof -
  from chars_loop_fetches[of 1 E hs allChars perTotal st] obtain n where
    "trace (snd (chars_loop E hs 1 allChars perTotal st))
       = trace st @ map (\<lambda>p. Fetch (page_request E hs p)) [1..<1 + n]"
    by auto
  then show ?thesis
    by (intro exI[of _ "map (\<lambda>p. Fetch (page_request E hs p)) [1..<1 + n]"])
       (simp add: list_all_iff)
qed

lemma fetch_all_fetches:
  "\<exists>fs. trace (snd (fetch_all E st)) = trace st @ fs \<and> list_all is_fetch fs"
proof -
  obtain r1 st1 where g: "getAppAccessToken E st = (r1, st1)"
    by (cases "getAppAccessToken E st")
  from getAppAccessToken_fetches[of E st] g obtain fs1 where
    t1: "trace st1 = trace st @ fs1" and f1: "list_all is_fetch fs1"
    by auto
  show ?thesis
  proof (cases "\<exists>tok hs. r1 = Inr tok \<and> sync_headers E tok = Inr hs")
    case False
    then have "snd (fetch_all E st) = st1"
      by (auto simp: fetch_all_def g split: sum.splits)
    with t1 f1 show ?thesis by auto
  next
    case True
    then obtain tok hs where r1: "r1 = Inr tok" and hs: "sync_headers E tok = Inr hs"
      by blast
    obtain r2 st2 where t: "fetchJSON E ''game/v1/traits?lang=none'' hs st1 = (r2, st2)"
      by (cases "fetchJSON E ''game/v1/traits?lang=none'' hs st1")
    have t2: "trace st2 = trace st1 @ [Fetch (api_request E hs ''game/v1/traits?lang=none'')]"
      using fetchJSON_trace[of E "''game/v1/traits?lang=none''" hs st1] t by simp
    show ?thesis
    proof (cases r2)
      case (Inl e)
      then have "snd (fetch_all E st) = st2"
        by (simp add: fetch_all_def g r1 hs t)
      with t1 t2 f1 show ?thesis by auto
    next
      case (Inr traits)
      obtain r3 st3 where l: "chars_loop E hs 1 [] Infinity st2 = (r3, st3)"
        by (cases "chars_loop E hs 1 [] Infinity st2")
      from chars_loop_only_fetches[of E hs "[]" Infinity st2] l obtain fs3 where
        t3: "trace st3 = trace st2 @ fs3" and f3: "list_all is_fetch fs3"
        by auto
      have "snd (fetch_all E st) = st3"
        by (simp add: fetch_all_def g r1 hs t Inr l del: One_nat_def
              split: sum.splits prod.splits)
      with t1 t2 t3 f1 f3 show ?thesis by auto
    qed
  qed
qed

lemma persist_writes:
  "\<exists>ws. trace (snd (persist E traits allChars page st)) = trace st @ ws
        \<and> list_all (\<lambda>e. \<not> is_fetch e) ws"
  by (simp add: persist_def save_def set_meta_def Date_now_def
        split: option.splits sum.splits)

lemma fetch_all_errors:
  "fst (getAppAccessToken E st) = Inl e \<Longrightarrow> fst (fetch_all E st) = Inl e"
  "getAppAccessToken E st = (Inr tok, st1) \<Longrightarrow> sync_headers E tok = Inr hs \<Longrightarrow>
   fst (fetchJSON E ''game/v1/traits?lang=none'' hs st1) = Inl e \<Longrightarrow>
   fst (fetch_all E st) = Inl e"
  "getAppAccessToken E st = (Inr tok, st1) \<Longrightarrow> sync_headers E tok = Inr hs \<Longrightarrow>
   fetchJSON E ''game/v1/traits?lang=none'' hs st1 = (Inr traits, st2) \<Longrightarrow>
   fst (chars_loop E hs 1 [] Infinity st2) = Inl e \<Longrightarrow>
   fst (fetch_all E st) = Inl e"
  by (auto simp: fetch_all_def simp del: One_nat_def split: prod.splits sum.splits)

text \<open>
  Claim C10. \<open>fetch_all\<close> is the part of \<^verbatim>\<open>syncGameRef\<close> that acquires the token,
  fetches the traits and runs the character loop; it fails when one of the three does
  (\<open>fetch_all_errors\<close>).
  The calls of a run are the fetches of \<open>fetch_all\<close> followed by the writes: no write
  precedes a fetch. And when \<open>fetch_all\<close> fails, the run issues no write at all, so the
  storage objects and the metadata document are what they were, and the reply is 500
  with the message of the error.
\<close>

theorem writes_after_fetches:
  "\<exists>fs ws. trace (snd (fetch_all E st)) = trace st @ fs
          \<and> trace (snd (syncGameRef E st)) = trace st @ fs @ ws
          \<and> list_all is_fetch fs
          \<and> list_all (\<lambda>e. \<not> is_fetch e) ws
          \<and> (\<forall>e. fst (fetch_all E st) = Inl e \<longrightarrow>
                ws = []
                \<and> writes (trace (snd (syncGameRef E st))) = writes (trace st)
                \<and> fst (syncGameRef E st) = failure 500 (message e))"
proof -
  obtain r st1 where f: "fetch_all E st = (r, st1)"
    by (cases "fetch_all E st")
  from fetch_all_fetches[of E st] f obtain fs where
    t1: "trace st1 = trace st @ fs" and fs: "list_all is_fetch fs"
    by auto
  have nowrites: "writes fs = []"
    using fs by (simp add: writes_def list_all_iff)
  show ?thesis
  proof (cases r)
    case (Inl e)
    then have "syncGameRef E st = (failure 500 (message e), st1)"
      by (simp add: syncGameRef_def f)
    with t1 fs nowrites f Inl show ?thesis
      by (intro exI[of _ fs] exI[of _ "[]"]) simp
  next
    case (Inr v)
    obtain traits allChars page where v: "v = (traits, allChars, page)"
      by (cases v)
    from persist_writes[of E traits allChars page st1] obtain ws where
      t2: "trace (snd (persist E traits allChars page st1)) = trace st1 @ ws"
      and ws: "list_all (\<lambda>e. \<not> is_fetch e) ws"
      by blast
    have "snd (syncGameRef E st) = snd (persist E traits allChars page st1)"
      by (simp add: syncGameRef_def f Inr v split: prod.splits sum.splits)
    with t1 t2 fs ws f Inr show ?thesis
      by (intro exI[of _ fs] exI[of _ ws]) simp
  qed
qed

theorem writes_after_fetches_witness:
  "fst (fetch_all (example_env (token_only 1800)) cold) = Inl (FetchFailed ''fetch failed'')
   \<and> writes (trace (snd (syncGameRef (example_env (token_only 1800)) cold))) = []
   \<and> fst (syncGameRef (example_env (token_only 1800)) cold) = failure 500 ''fetch failed''"
proof -
  let ?E = "example_env (token_only 1800)"
  have "answers ?E (length (fetches (trace cold))) (token_request ?E) (token_json 1800)"
    by (simp add: answers_def example_network ok_json_response)
  from answers_network[OF this] obtain r where
    r: "network ?E (length (fetches (trace cold))) (token_request ?E) = Inr r" "ok r"
       "body_json r = Some (token_json 1800)"
    by blast
  have tok: "fst (getAppAccessToken ?E cold) = Inr (token_json 1800)"
    by (simp add: example_fresh)
  obtain st1 where g: "getAppAccessToken ?E cold = (Inr (token_json 1800), st1)"
    using tok by (cases "getAppAccessToken ?E cold") simp
  have hs: "sync_headers ?E (token_json 1800) = Inr (bearer_headers ?E ''abc'')"
    by (rule sync_headers_string) (simp add: token_json_def)
  have "fst (fetchJSON ?E ''game/v1/traits?lang=none'' (bearer_headers ?E ''abc'') st1)
          = Inl (FetchFailed ''fetch failed'')"
    by (simp add: fetchJSON_def do_fetch_def example_network_url token_only_def
          example_env_def strip_trailing_slash_def)
  then obtain st2 where
    "fetchJSON ?E ''game/v1/traits?lang=none'' (bearer_headers ?E ''abc'') st1
       = (Inl (FetchFailed ''fetch failed''), st2)"
    by (cases "fetchJSON ?E ''game/v1/traits?lang=none'' (bearer_headers ?E ''abc'') st1") simp
  then have failed: "fst (fetch_all ?E cold) = Inl (FetchFailed ''fetch failed'')"
    by (simp add: fetch_all_def g hs)
  with writes_after_fetches[of ?E cold] show ?thesis
    by (auto simp: example_cold)
qed


subsection \<open>The safety cap is reached\<close>

text \<open>
  The bound of 200 pages is exact: when every page is full and declares no total, the
  loop fetches the pages 1 to 200 and stops there, with \<^verbatim>\<open>page\<close> equal to 201.
\<close>

lemma chars_loop_capped:
  assumes "below_total (lib E) (length allChars) perTotal = Inr True"
    and "page_step E hs page allChars st = (Inr (k, allChars', perTotal'), st1)"
    and "\<not> k < perPage" and "200 \<le> page"
  shows "chars_loop E hs page allChars perTotal st = (Inr (allChars', page + 1), st1)"
  using assms by (simp add: chars_loop.simps[of E hs page allChars perTotal st])

lemma full_pages_reach_cap:
  assumes full: "\<And>p n. \<exists>resp items. answers E n (page_request E hs p) resp
                   \<and> page_items resp = Inr items \<and> length items = perPage
                   \<and> normalizable items \<and> declared resp = None"
    and "page \<le> 200"
    and "below_total (lib E) (length allChars) perTotal = Inr True"
  shows "\<exists>allChars' st'.
           chars_loop E hs page allChars perTotal st = (Inr (allChars', 201), st')
           \<and> length allChars' = length allChars + perPage * (201 - page)
           \<and> trace st' = trace st @ map (\<lambda>p. Fetch (page_request E hs p)) [page..<201]"
  using assms(2,3)
proof (induction "200 - page" arbitrary: page allChars perTotal st)
  case 0
  then have page: "page = 200" by simp
  from full[of "length (fetches (trace st))" page] obtain resp items where
    a: "answers E (length (fetches (trace st))) (page_request E hs page) resp"
    and i: "page_items resp = Inr items" and l: "length items = perPage"
    and n: "normalizable items" and d: "declared resp = None"
    by blast
  from normalizable_emap[OF n] obtain normalized where
    e: "emap (normalize (lib E)) items = Inr normalized"
    by blast
  note step = page_step_answers[OF a i e, of allChars]
  have "chars_loop E hs page allChars perTotal st
          = (Inr (allChars @ normalized, page + 1),
             st\<lparr>trace := trace st @ [Fetch (page_request E hs page)]\<rparr>)"
    using "0.prems"(2) step by (rule chars_loop_capped) (simp_all add: l page)
  then show ?case
    using emap_length[OF e] l by (simp add: page)
next
  case (Suc m)
  then have page: "page < 200" by simp
  from full[of "length (fetches (trace st))" page] obtain resp items where
    a: "answers E (length (fetches (trace st))) (page_request E hs page) resp"
    and i: "page_items resp = Inr items" and l: "length items = perPage"
    and n: "normalizable items" and d: "declared resp = None"
    by blast
  from normalizable_emap[OF n] obtain normalized where
    e: "emap (normalize (lib E)) items = Inr normalized"
    by blast
  let ?all = "allChars @ normalized"
  let ?pt = "Total (nullish (declared resp)
                      (JNum (int (if length items < perPage then length ?all
                                  else length ?all + perPage))))"
  let ?st1 = "st\<lparr>trace := trace st @ [Fetch (page_request E hs page)]\<rparr>"
  note step = page_step_answers[OF a i e, of allChars]
  have next_page: "chars_loop E hs page allChars perTotal st = chars_loop E hs (page + 1) ?all ?pt ?st1"
    using Suc.prems(2) step by (rule chars_loop_full) (simp_all add: l page)
  have below: "below_total (lib E) (length ?all) ?pt = Inr True"
    by (simp add: d l perPage_def)
  have m: "m = 200 - (page + 1)" and le: "page + 1 \<le> 200"
    using Suc.hyps(2) page by simp_all
  from Suc.hyps(1)[OF m le below, of ?st1] obtain allChars' st' where
    r: "chars_loop E hs (page + 1) ?all ?pt ?st1 = (Inr (allChars', 201), st')"
    and len: "length allChars' = length ?all + perPage * (201 - (page + 1))"
    and tr: "trace st' = trace ?st1 @ map (\<lambda>p. Fetch (page_request E hs p)) [page + 1..<201]"
    by blast
  have "length allChars' = length allChars + perPage * (201 - page)"
  proof -
    have "201 - page = Suc (201 - (page + 1))"
      using page by simp
    then show ?thesis
      using len emap_length[OF e] l by simp
  qed
  moreover have "trace st' = trace st @ map (\<lambda>p. Fetch (page_request E hs p)) [page..<201]"
    using tr page by (simp add: upt_rec[of page 201])
  ultimately show ?case
    unfolding next_page r by blast
qed

lemma safety_cap_reached:
  assumes "\<And>p n. \<exists>resp items. answers E n (page_request E hs p) resp
             \<and> page_items resp = Inr items \<and> length items = perPage
             \<and> normalizable items \<and> declared resp = None"
  shows "\<exists>allChars st'.
           chars_loop E hs 1 [] Infinity st = (Inr (allChars, 201), st')
           \<and> length allChars = 40000
           \<and> trace st' = trace st @ map (\<lambda>p. Fetch (page_request E hs p)) [1..<201]"
  using full_pages_reach_cap[OF assms, of 1 "[]" Infinity st]
  by (simp add: perPage_def)

end
